theory Spec2Isabelle
  imports Complex_Main
begin

section \<open>JavaScript numbers\<close>

text \<open>
  The prices of the monitor are JavaScript numbers. A number is NaN, an infinity, the
  negative zero, or a finite value; \<open>Fin 0\<close> is the positive zero. The special values
  are kept because the code reaches them: \<open>parseFloat\<close> of a string that is no number
  is NaN, and a division by a zero floor is an infinity or NaN. A finite value is a
  real number that binary64 represents: every operation computes the exact result and
  rounds it to the nearest such number, ties to the even significand, with overflow to
  an infinity and gradual underflow to a zero (\<open>round64\<close>). The comparisons are exact.
\<close>

datatype number = NaN | NInf | NZero | Fin real | PInf

fun negative :: "number \<Rightarrow> bool" where
  "negative NInf = True"
| "negative NZero = True"
| "negative (Fin r) = (r < 0)"
| "negative PInf = False"
| "negative NaN = False"

fun is_zero :: "number \<Rightarrow> bool" where
  "is_zero NZero = True"
| "is_zero (Fin r) = (r = 0)"
| "is_zero NInf = False"
| "is_zero PInf = False"
| "is_zero NaN = False"

fun is_inf :: "number \<Rightarrow> bool" where
  "is_inf NInf = True"
| "is_inf PInf = True"
| "is_inf NZero = False"
| "is_inf (Fin r) = False"
| "is_inf NaN = False"

fun val :: "number \<Rightarrow> real" where
  "val (Fin r) = r"
| "val NZero = 0"
| "val NInf = 0"
| "val PInf = 0"
| "val NaN = 0"

fun rank :: "number \<Rightarrow> int" where
  "rank NInf = - 1"
| "rank PInf = 1"
| "rank NZero = 0"
| "rank (Fin r) = 0"
| "rank NaN = 0"

definition mk_zero :: "bool \<Rightarrow> number" where
  "mk_zero s = (if s then NZero else Fin 0)"

definition mk_inf :: "bool \<Rightarrow> number" where
  "mk_inf s = (if s then NInf else PInf)"

subsection \<open>Rounding to binary64\<close>

text \<open>\<open>pow2 k\<close> is 2 to the power \<open>k\<close>, \<open>ilog2 n\<close> the position of the leading bit of \<open>n\<close>, and
  \<open>exponent a\<close>, for a positive \<open>a\<close>, the integer \<open>e\<close> with \<open>2^e \<le> a < 2^(e+1)\<close>.\<close>

definition pow2 :: "int \<Rightarrow> real" where
  "pow2 k = (if 0 \<le> k then 2 ^ nat k else 1 / 2 ^ nat (- k))"

fun ilog2 :: "nat \<Rightarrow> nat" where
  "ilog2 n = (if n < 2 then 0 else Suc (ilog2 (n div 2)))"

declare ilog2.simps [simp del]

definition exponent :: "real \<Rightarrow> int" where
  "exponent a =
     (if 1 \<le> a then int (ilog2 (nat \<lfloor>a\<rfloor>))
      else if nat \<lceil>1 / a\<rceil> \<le> 1 then 0
      else - int (Suc (ilog2 (nat \<lceil>1 / a\<rceil> - 1))))"

text \<open>The nearest integer, a tie going to the even one.\<close>

definition round_half_even :: "real \<Rightarrow> int" where
  "round_half_even q =
     (if q - of_int \<lfloor>q\<rfloor> < 1 / 2 then \<lfloor>q\<rfloor>
      else if 1 / 2 < q - of_int \<lfloor>q\<rfloor> then \<lfloor>q\<rfloor> + 1
      else if even \<lfloor>q\<rfloor> then \<lfloor>q\<rfloor> else \<lfloor>q\<rfloor> + 1)"

text \<open>
  The binary64 value of a real: the significand has 53 bits, so the unit in the last
  place of \<open>x\<close> is \<open>2^(e - 52)\<close> for the exponent \<open>e\<close> of \<open>x\<close>, and \<open>2^(-1074)\<close> under the smallest
  normal number \<open>2^(-1022)\<close>; \<open>x\<close> is rounded to a multiple of that unit. A result of
  \<open>2^1024\<close> or more is an infinity, a result of 0 is the zero of the sign of \<open>x\<close>.
\<close>

definition round64 :: "real \<Rightarrow> number" where
  "round64 x =
     (if x = 0 then Fin 0
      else
        (let u = pow2 (max (exponent \<bar>x\<bar>) (- 1022) - 52);
             n = round_half_even (\<bar>x\<bar> / u)
         in if pow2 1024 \<le> of_int n * u then mk_inf (x < 0)
            else if n = 0 then mk_zero (x < 0)
            else Fin (if x < 0 then - (of_int n * u) else of_int n * u)))"

text \<open>The result of an operation whose exact value is \<open>r\<close> and whose sign is \<open>s\<close>: an exact
  zero keeps the sign that the operation gives it.\<close>

definition mk_fin :: "bool \<Rightarrow> real \<Rightarrow> number" where
  "mk_fin s r = (if r = 0 then mk_zero s else round64 r)"

text \<open>\<open>a < b\<close>, \<open>a > b\<close>, \<open>a >= b\<close> and \<open>a <= b\<close>: false as soon as one side is NaN; the two
  zeros are equal.\<close>

definition js_lt :: "number \<Rightarrow> number \<Rightarrow> bool" where
  "js_lt a b = (a \<noteq> NaN \<and> b \<noteq> NaN \<and>
     (rank a < rank b \<or> (rank a = rank b \<and> val a < val b)))"

definition js_gt :: "number \<Rightarrow> number \<Rightarrow> bool" where
  "js_gt a b = js_lt b a"

definition js_ge :: "number \<Rightarrow> number \<Rightarrow> bool" where
  "js_ge a b = (a \<noteq> NaN \<and> b \<noteq> NaN \<and> \<not> js_lt a b)"

definition js_le :: "number \<Rightarrow> number \<Rightarrow> bool" where
  "js_le a b = js_ge b a"

text \<open>\<open>a - b\<close>, \<open>a * b\<close> and \<open>a / b\<close>: the special cases of IEEE 754, and for finite operands
  the exact result rounded.\<close>

definition js_sub :: "number \<Rightarrow> number \<Rightarrow> number" where
  "js_sub a b =
     (if a = NaN \<or> b = NaN then NaN
      else if is_inf a then (if is_inf b \<and> negative a = negative b then NaN else a)
      else if is_inf b then mk_inf (\<not> negative b)
      else if val a - val b = 0 then mk_zero (a = NZero \<and> b = Fin 0)
      else round64 (val a - val b))"

definition js_mul :: "number \<Rightarrow> number \<Rightarrow> number" where
  "js_mul a b =
     (if a = NaN \<or> b = NaN then NaN
      else if (is_inf a \<and> is_zero b) \<or> (is_zero a \<and> is_inf b) then NaN
      else if is_inf a \<or> is_inf b then mk_inf (negative a \<noteq> negative b)
      else mk_fin (negative a \<noteq> negative b) (val a * val b))"

definition js_div :: "number \<Rightarrow> number \<Rightarrow> number" where
  "js_div a b =
     (if a = NaN \<or> b = NaN then NaN
      else if (is_inf a \<and> is_inf b) \<or> (is_zero a \<and> is_zero b) then NaN
      else if is_inf a then mk_inf (negative a \<noteq> negative b)
      else if is_inf b then mk_zero (negative a \<noteq> negative b)
      else if is_zero b then mk_inf (negative a \<noteq> negative b)
      else mk_fin (negative a \<noteq> negative b) (val a / val b))"

text \<open>The truth value of a number in a condition: NaN and the zeros are false.\<close>

definition truthy_number :: "number \<Rightarrow> bool" where
  "truthy_number n = (n \<noteq> NaN \<and> \<not> is_zero n)"

text \<open>\<open>ten_to d\<close> is 10 to the power \<open>d\<close>, exactly. \<open>Math.pow(10, d)\<close> for an integer \<open>d\<close> is
  its binary64 value: exact from 0 to 22, where the language leaves the last bit of
  other powers to the implementation.\<close>

definition ten_to :: "int \<Rightarrow> real" where
  "ten_to d = (if 0 \<le> d then 10 ^ nat d else 1 / 10 ^ nat (- d))"

definition pow10 :: "int \<Rightarrow> number" where
  "pow10 d = round64 (ten_to d)"

subsection \<open>Numbers from strings\<close>

definition digit :: "char \<Rightarrow> nat option" where
  "digit c = (let n = (of_char c :: nat) in if 48 \<le> n \<and> n \<le> 57 then Some (n - 48) else None)"

text \<open>The white space that \<open>parseFloat\<close> and \<open>parseInt\<close> skip, among the characters of
  one byte: TAB, LF, VT, FF, CR, SP and NBSP.\<close>

definition is_space :: "char \<Rightarrow> bool" where
  "is_space c = (let n = (of_char c :: nat) in (9 \<le> n \<and> n \<le> 13) \<or> n = 32 \<or> n = 160)"

fun take_digits :: "string \<Rightarrow> nat list \<times> string" where
  "take_digits [] = ([], [])"
| "take_digits (c # cs) =
     (case digit c of
        None \<Rightarrow> ([], c # cs)
      | Some d \<Rightarrow> (case take_digits cs of (ds, r) \<Rightarrow> (d # ds, r)))"

definition nat_of_digits :: "nat list \<Rightarrow> nat" where
  "nat_of_digits ds = foldl (\<lambda>a d. 10 * a + d) 0 ds"

definition take_sign :: "string \<Rightarrow> bool \<times> string" where
  "take_sign s =
     (case s of
        [] \<Rightarrow> (False, s)
      | c # r \<Rightarrow> if c = CHR ''-'' then (True, r) else if c = CHR ''+'' then (False, r)
                 else (False, s))"

text \<open>The exponent part \<open>e\<close>, \<open>E\<close> with an optional sign and at least one digit; without
  a digit it is no exponent part and the prefix ends before it.\<close>

definition take_exponent :: "string \<Rightarrow> int" where
  "take_exponent s =
     (case s of
        [] \<Rightarrow> 0
      | c # r \<Rightarrow>
          if c = CHR ''e'' \<or> c = CHR ''E'' then
            (case take_sign r of (sg, r') \<Rightarrow>
               (case take_digits r' of (ds, _) \<Rightarrow>
                  if ds = [] then 0
                  else if sg then - int (nat_of_digits ds) else int (nat_of_digits ds)))
          else 0)"

text \<open>\<open>parseFloat\<close>: the longest prefix, after the white space, that is a decimal
  literal; NaN when there is none. The value is the binary64 value of the decimal (a
  literal of more than 20 significant digits may differ in the last bit).\<close>

definition parseFloat :: "string \<Rightarrow> number" where
  "parseFloat s =
     (case take_sign (dropWhile is_space s) of (sg, u) \<Rightarrow>
        if take 8 u = ''Infinity'' then mk_inf sg
        else
          (case take_digits u of (ip, r1) \<Rightarrow>
             (case (case r1 of
                      [] \<Rightarrow> ([], r1)
                    | c # r \<Rightarrow> if c = CHR ''.'' then take_digits r else ([], r1)) of
                (fp, r2) \<Rightarrow>
                  if ip = [] \<and> fp = [] then NaN
                  else
                    (let m = real (nat_of_digits ip) + real (nat_of_digits fp) / 10 ^ length fp;
                         v = m * ten_to (take_exponent r2)
                     in mk_fin sg (if sg then - v else v)))))"

text \<open>\<open>parseInt(s, 10)\<close>.\<close>

definition parseInt10 :: "string \<Rightarrow> number" where
  "parseInt10 s =
     (case take_sign (dropWhile is_space s) of (sg, u) \<Rightarrow>
        (case take_digits u of (ds, _) \<Rightarrow>
           if ds = [] then NaN
           else mk_fin sg (if sg then - real (nat_of_digits ds) else real (nat_of_digits ds))))"

section \<open>The data of types.ts\<close>

text \<open>A listing event, with the fields of the payload that the monitor reads. The
  decimals of a payment token are an integer.\<close>

record ListingEvent =
  item_name :: string
  item_image_url :: string
  item_permalink :: string
  base_price :: string
  token_symbol :: string
  token_decimals :: int
  token_usd_price :: string
  event_timestamp :: string
  collection_slug :: string
  collection_name :: "string option"

record FloorData =
  price :: number
  priceUSD :: number
  timestamp :: number
  tokenSymbol :: string

text \<open>
  \<open>CollectionFloors\<close> is a plain object used as a dictionary from collection slugs to
  floor records. The map holds its own properties. Reading a key that is not an own
  property finds what every object inherits from \<open>Object.prototype\<close>: for the names below
  a function (for \<open>__proto__\<close> the prototype itself), which is true in a condition and
  has no \<open>price\<close>; for every other name \<open>undefined\<close>.
\<close>

type_synonym CollectionFloors = "string \<rightharpoonup> FloorData"

definition inherited :: "string \<Rightarrow> bool" where
  "inherited k =
     (k \<in> set [''constructor'', ''__defineGetter__'', ''__defineSetter__'', ''hasOwnProperty'',
                ''__lookupGetter__'', ''__lookupSetter__'', ''isPrototypeOf'',
                ''propertyIsEnumerable'', ''toString'', ''valueOf'', ''__proto__'',
                ''toLocaleString''])"

datatype floor_value = Missing | InheritedValue | FloorRecord FloorData

definition lookup :: "CollectionFloors \<Rightarrow> string \<Rightarrow> floor_value" where
  "lookup floors k =
     (case floors k of
        Some f \<Rightarrow> FloorRecord f
      | None \<Rightarrow> if inherited k then InheritedValue else Missing)"

section \<open>FloorTracker\<close>

text \<open>\<open>parseFloat(base_price) / Math.pow(10, payment_token.decimals)\<close>: the expression
  that \<open>updateFloor\<close>, \<open>isUndercut\<close> and \<open>handleListingEvent\<close> each compute.\<close>

definition normalized_price :: "ListingEvent \<Rightarrow> number" where
  "normalized_price event = js_div (parseFloat (base_price event)) (pow10 (token_decimals event))"

definition new_floor :: "ListingEvent \<Rightarrow> FloorData" where
  "new_floor event =
     \<lparr> price = normalized_price event,
       priceUSD = js_mul (normalized_price event)
         (parseFloat (if token_usd_price event = [] then ''0'' else token_usd_price event)),
       timestamp = parseInt10 (event_timestamp event),
       tokenSymbol = token_symbol event \<rparr>"

text \<open>\<open>updateFloor\<close>: an inherited value is not false, so the first test fails for it, and
  its \<open>price\<close> is \<open>undefined\<close>, which the comparison reads as NaN.\<close>

definition updateFloor :: "string \<Rightarrow> ListingEvent \<Rightarrow> CollectionFloors \<Rightarrow> bool \<times> CollectionFloors" where
  "updateFloor collectionSlug event floors =
     (case lookup floors collectionSlug of
        Missing \<Rightarrow> (True, floors(collectionSlug \<mapsto> new_floor event))
      | FloorRecord currentFloor \<Rightarrow>
          if js_lt (normalized_price event) (price currentFloor)
          then (True, floors(collectionSlug \<mapsto> new_floor event))
          else (False, floors)
      | InheritedValue \<Rightarrow>
          if js_lt (normalized_price event) NaN
          then (True, floors(collectionSlug \<mapsto> new_floor event))
          else (False, floors))"

text \<open>\<open>this.floors[collectionSlug] || null\<close>; \<open>Missing\<close> stands for \<open>null\<close> here.\<close>

definition getFloor :: "string \<Rightarrow> CollectionFloors \<Rightarrow> floor_value" where
  "getFloor collectionSlug floors = lookup floors collectionSlug"

text \<open>The verdict. Its floor price is the \<open>price\<close> of what \<open>getFloor\<close> returned, which is
  \<open>undefined\<close> (\<open>None\<close>) for an inherited value; the arithmetic reads \<open>undefined\<close> as NaN.\<close>

record UndercutVerdict =
  isUndercut_flag :: bool
  listingPrice :: number
  floorPrice :: "number option"
  percentBelow :: number

definition isUndercut :: "string \<Rightarrow> ListingEvent \<Rightarrow> number \<Rightarrow> CollectionFloors \<Rightarrow> UndercutVerdict" where
  "isUndercut collectionSlug event thresholdPercent floors =
     (case getFloor collectionSlug floors of
        Missing \<Rightarrow>
          \<lparr> isUndercut_flag = False, listingPrice = normalized_price event,
            floorPrice = Some (Fin 0), percentBelow = Fin 0 \<rparr>
      | FloorRecord currentFloor \<Rightarrow>
          (let pb = js_mul (js_div (js_sub (price currentFloor) (normalized_price event))
                              (price currentFloor)) (Fin 100)
           in \<lparr> isUndercut_flag = js_ge pb thresholdPercent,
                listingPrice = normalized_price event,
                floorPrice = Some (price currentFloor), percentBelow = pb \<rparr>)
      | InheritedValue \<Rightarrow>
          (let pb = js_mul (js_div (js_sub NaN (normalized_price event)) NaN) (Fin 100)
           in \<lparr> isUndercut_flag = js_ge pb thresholdPercent,
                listingPrice = normalized_price event,
                floorPrice = None, percentBelow = pb \<rparr>))"

definition getAllFloors :: "CollectionFloors \<Rightarrow> CollectionFloors" where
  "getAllFloors floors = floors"


section \<open>Settings and configuration\<close>

text \<open>The fields of \<open>BotSettings\<close> that an event reads. A field that the settings file
  may leave out is an option, \<open>None\<close> being \<open>undefined\<close>.\<close>

record BotSettings =
  minFloorPrice :: "number option"
  maxFloorPrice :: "number option"
  enableFloorUpdateAlerts :: "bool option"
  priceAlertMin :: "number option"
  priceAlertMax :: "number option"
  enablePriceTriggerAlerts :: "bool option"

record NotificationConfig =
  discordWebhook :: "string option"
  telegramBotToken :: "string option"
  telegramChatId :: "string option"

record BotConfig =
  undercutThresholdPercent :: number
  notifications :: NotificationConfig

text \<open>The truth value of an optional string and of an optional boolean in a condition.\<close>

definition truthy_string :: "string option \<Rightarrow> bool" where
  "truthy_string s = (case s of None \<Rightarrow> False | Some t \<Rightarrow> t \<noteq> [])"

definition truthy_flag :: "bool option \<Rightarrow> bool" where
  "truthy_flag b = (b = Some True)"

section \<open>Effects\<close>

text \<open>
  What the monitor does besides updating the floors is a list of effects, in the order
  of the source. A message is kept as the data its template renders, not as the
  rendered text: an alert stands for the message built from it, and a reason for the
  strings \<open>''\<close>, \<open>Below <min> ETH\<close> and \<open>Above <max> ETH\<close>.
\<close>

datatype alert_reason = NoReason | Below number | Above number

datatype alert =
    UndercutAlert ListingEvent number number number
  | PriceTriggerAlert ListingEvent number string alert_reason
  | FloorUpdateAlert string "string option" number string

text \<open>An outbound POST: to the webhook URL with the embed of the message, or to the
  \<open>sendMessage\<close> endpoint of the bot token with the chat identifier and the message.\<close>

datatype request =
    DiscordRequest string alert
  | TelegramRequest string string alert

text \<open>The events pushed to the dashboard, by their \<open>type\<close>: \<open>listing\<close>, \<open>price_alert\<close>,
  \<open>undercut\<close> and \<open>floor_update\<close>; the collection slug comes last.\<close>

datatype dashboard_event =
    Ev_listing string number string string
  | Ev_price_alert string number string alert_reason string
  | Ev_undercut string number string number string
  | Ev_floor_update number string string

text \<open>A rejected promise carries one of these: the RangeError of \<open>toISOString\<close> on an
  invalid date, the TypeError of \<open>new URL\<close>, the error of a status outside 2xx, the
  error of the transport, or the TypeError of \<open>toFixed\<close> on \<open>undefined\<close>.\<close>

datatype error =
    InvalidTimeValue
  | InvalidURL
  | HttpStatusError "nat option"
  | TransportError
  | UndefinedToFixed

datatype effect =
    ConsoleLogListing string number string
  | ConsoleLogFloor string number string
  | ConsoleNotification alert
  | HttpPost request
  | ConsoleError error
  | AddEvent dashboard_event
  | UpdateBotStatus CollectionFloors

text \<open>What the network does with a request: the URL does not parse, a response ends
  with a status code (which may be missing), or the request emits an error.\<close>

datatype http_outcome = UrlRejected | Responded "nat option" | ConnectionFailed

text \<open>An awaited operation: it resolves (\<open>Inr\<close>) or rejects (\<open>Inl\<close>), and leaves effects.\<close>

type_synonym io = "(error + unit) \<times> effect list"

definition done_io :: io where
  "done_io = (Inr (), [])"

text \<open>\<open>await a; b\<close>: when \<open>a\<close> rejects, \<open>b\<close> does not run and the rejection goes on.\<close>

definition await_then :: "io \<Rightarrow> io \<Rightarrow> io" where
  "await_then a b =
     (case a of
        (Inl e, w) \<Rightarrow> (Inl e, w)
      | (Inr _, w) \<Rightarrow> (fst b, w @ snd b))"

section \<open>Notifier\<close>

definition status_ok :: "nat option \<Rightarrow> bool" where
  "status_ok sc = (case sc of None \<Rightarrow> False | Some n \<Rightarrow> n \<noteq> 0 \<and> 200 \<le> n \<and> n < 300)"

definition makeHttpsRequest :: "request \<Rightarrow> http_outcome \<Rightarrow> io" where
  "makeHttpsRequest req outcome =
     (case outcome of
        UrlRejected \<Rightarrow> (Inl InvalidURL, [])
      | Responded sc \<Rightarrow>
          if status_ok sc then (Inr (), [HttpPost req])
          else (Inl (HttpStatusError sc), [HttpPost req, ConsoleError (HttpStatusError sc)])
      | ConnectionFailed \<Rightarrow> (Inl TransportError, [HttpPost req, ConsoleError TransportError]))"

text \<open>\<open>new Date(ms).toISOString()\<close> throws unless \<open>ms\<close> is a time value.\<close>

definition valid_time :: "number \<Rightarrow> bool" where
  "valid_time ms = (ms \<noteq> NaN \<and> \<not> is_inf ms \<and> \<bar>val ms\<bar> \<le> 8640000000000000)"

definition sendConsoleNotification :: "alert \<Rightarrow> io" where
  "sendConsoleNotification message = (Inr (), [ConsoleNotification message])"

definition sendDiscordNotification ::
  "NotificationConfig \<Rightarrow> (request \<Rightarrow> http_outcome) \<Rightarrow> alert \<Rightarrow> ListingEvent \<Rightarrow> io" where
  "sendDiscordNotification config net message event =
     (case discordWebhook config of
        None \<Rightarrow> done_io
      | Some url \<Rightarrow>
          if url = [] then done_io
          else if \<not> valid_time (js_mul (parseInt10 (event_timestamp event)) (Fin 1000))
          then (Inl InvalidTimeValue, [])
          else makeHttpsRequest (DiscordRequest url message) (net (DiscordRequest url message)))"

definition sendTelegramNotification ::
  "NotificationConfig \<Rightarrow> (request \<Rightarrow> http_outcome) \<Rightarrow> alert \<Rightarrow> io" where
  "sendTelegramNotification config net message =
     (case (telegramBotToken config, telegramChatId config) of
        (Some token, Some chat) \<Rightarrow>
          if token = [] \<or> chat = [] then done_io
          else makeHttpsRequest (TelegramRequest token chat message)
                 (net (TelegramRequest token chat message))
      | _ \<Rightarrow> done_io)"

definition send_to_channels ::
  "NotificationConfig \<Rightarrow> (request \<Rightarrow> http_outcome) \<Rightarrow> alert \<Rightarrow> ListingEvent \<Rightarrow> io" where
  "send_to_channels config net message event =
     await_then (sendConsoleNotification message)
       (await_then
          (if truthy_string (discordWebhook config)
           then sendDiscordNotification config net message event else done_io)
          (if truthy_string (telegramBotToken config) \<and> truthy_string (telegramChatId config)
           then sendTelegramNotification config net message else done_io))"

text \<open>\<open>sendUndercutAlert\<close> formats its message first, with \<open>floorPrice.toFixed(4)\<close>: that
  throws when the floor price is \<open>undefined\<close>.\<close>

definition sendUndercutAlert ::
  "NotificationConfig \<Rightarrow> (request \<Rightarrow> http_outcome) \<Rightarrow> ListingEvent \<Rightarrow> number
     \<Rightarrow> number option \<Rightarrow> number \<Rightarrow> io" where
  "sendUndercutAlert config net event lp fp pb =
     (case fp of
        None \<Rightarrow> (Inl UndefinedToFixed, [])
      | Some floor_price \<Rightarrow> send_to_channels config net (UndercutAlert event lp floor_price pb) event)"

definition sendPriceTriggerAlert ::
  "NotificationConfig \<Rightarrow> (request \<Rightarrow> http_outcome) \<Rightarrow> ListingEvent \<Rightarrow> number \<Rightarrow> string \<Rightarrow> alert_reason \<Rightarrow> io" where
  "sendPriceTriggerAlert config net event lp symb reason =
     send_to_channels config net (PriceTriggerAlert event lp symb reason) event"

definition sendFloorUpdateAlert ::
  "string \<Rightarrow> string option \<Rightarrow> number \<Rightarrow> string \<Rightarrow> io" where
  "sendFloorUpdateAlert slug name newFloor symb =
     sendConsoleNotification (FloorUpdateAlert slug name newFloor symb)"

section \<open>The monitor: handleListingEvent\<close>

text \<open>
  The handler of index.ts, in three parts that follow its text: the price triggers
  (lines 170 to 201), the undercut check with its filters (lines 203 to 233) and the
  floor update (lines 235 to 264). One event is handled from its start to its end: the
  handlers of two events are not interleaved at an \<open>await\<close>.
\<close>

text \<open>\<open>collection.name || collectionSlug\<close>.\<close>

definition display_name :: "ListingEvent \<Rightarrow> string" where
  "display_name event =
     (case collection_name event of
        None \<Rightarrow> collection_slug event
      | Some name \<Rightarrow> if name = [] then collection_slug event else name)"

text \<open>The two checks of the price triggers, the minimum first and the maximum second;
  each one that holds sets \<open>shouldAlert\<close> and overwrites \<open>alertReason\<close>.\<close>

definition price_trigger_decision :: "BotSettings \<Rightarrow> number \<Rightarrow> bool \<times> alert_reason" where
  "price_trigger_decision settings lp =
     (let (shouldAlert, alertReason) = (False, NoReason);
          (shouldAlert, alertReason) =
             (case priceAlertMin settings of
                None \<Rightarrow> (shouldAlert, alertReason)
              | Some m \<Rightarrow> if js_lt lp m then (True, Below m) else (shouldAlert, alertReason));
          (shouldAlert, alertReason) =
             (case priceAlertMax settings of
                None \<Rightarrow> (shouldAlert, alertReason)
              | Some m \<Rightarrow> if js_gt lp m then (True, Above m) else (shouldAlert, alertReason))
      in (shouldAlert, alertReason))"

text \<open>The price triggers: when they are enabled and a check holds, the alert is sent and
  awaited, then the dashboard gets its event.\<close>

definition price_trigger_step ::
  "BotSettings \<Rightarrow> BotConfig \<Rightarrow> (request \<Rightarrow> http_outcome) \<Rightarrow> ListingEvent \<Rightarrow> io" where
  "price_trigger_step settings config net event =
     (if truthy_flag (enablePriceTriggerAlerts settings) then
        (case price_trigger_decision settings (normalized_price event) of
           (shouldAlert, alertReason) \<Rightarrow>
             if shouldAlert then
               await_then
                 (sendPriceTriggerAlert (notifications config) net event (normalized_price event)
                    (token_symbol event) alertReason)
                 (Inr (), [AddEvent (Ev_price_alert (item_name event) (normalized_price event)
                                      (token_symbol event) alertReason (collection_slug event))])
             else done_io)
      else done_io)"

text \<open>\<open>settings.minFloorPrice && floorPrice < settings.minFloorPrice\<close> and
  \<open>settings.maxFloorPrice && floorPrice > settings.maxFloorPrice\<close>; a comparison reads
  \<open>undefined\<close> as NaN.\<close>

definition to_number :: "number option \<Rightarrow> number" where
  "to_number v = (case v of None \<Rightarrow> NaN | Some n \<Rightarrow> n)"

definition below_min_floor :: "BotSettings \<Rightarrow> number option \<Rightarrow> bool" where
  "below_min_floor settings fp =
     (case minFloorPrice settings of
        None \<Rightarrow> False
      | Some m \<Rightarrow> truthy_number m \<and> js_lt (to_number fp) m)"

definition above_max_floor :: "BotSettings \<Rightarrow> number option \<Rightarrow> bool" where
  "above_max_floor settings fp =
     (case maxFloorPrice settings of
        None \<Rightarrow> False
      | Some m \<Rightarrow> truthy_number m \<and> js_gt (to_number fp) m)"

text \<open>How a part of the handler ends: it goes on to the next statement, it returns
  from the handler, or a promise it awaits rejects.\<close>

datatype control = Proceed | Return | Throw error

text \<open>The undercut check, only when the price triggers are not enabled: a flagged
  verdict whose floor price is outside a bound returns from the handler; otherwise the
  alert is sent and awaited, then the dashboard gets its event.\<close>

definition undercut_step ::
  "BotSettings \<Rightarrow> BotConfig \<Rightarrow> (request \<Rightarrow> http_outcome) \<Rightarrow> ListingEvent \<Rightarrow> CollectionFloors
     \<Rightarrow> control \<times> effect list" where
  "undercut_step settings config net event floors =
     (if \<not> truthy_flag (enablePriceTriggerAlerts settings) then
        (let undercutResult =
               isUndercut (collection_slug event) event (undercutThresholdPercent config) floors
         in if isUndercut_flag undercutResult then
              (if below_min_floor settings (floorPrice undercutResult) then (Return, [])
               else if above_max_floor settings (floorPrice undercutResult) then (Return, [])
               else
                 (case await_then
                         (sendUndercutAlert (notifications config) net event
                            (listingPrice undercutResult) (floorPrice undercutResult)
                            (percentBelow undercutResult))
                         (Inr (), [AddEvent (Ev_undercut (item_name event) (normalized_price event)
                                              (token_symbol event) (percentBelow undercutResult)
                                              (collection_slug event))]) of
                    (Inl e, w) \<Rightarrow> (Throw e, w)
                  | (Inr _, w) \<Rightarrow> (Proceed, w)))
            else (Proceed, []))
      else (Proceed, []))"

text \<open>The floor update: \<open>updateFloor\<close>, and when it replaced the record, the log line, the
  floor-update alert unless \<open>enableFloorUpdateAlerts\<close> is false, and the events for the
  dashboard. The log line is \<open>newFloor.price.toFixed(4)\<close>, which would throw on a value
  without a price.\<close>

definition floor_update_step ::
  "BotSettings \<Rightarrow> ListingEvent \<Rightarrow> CollectionFloors \<Rightarrow> (error + unit) \<times> CollectionFloors \<times> effect list" where
  "floor_update_step settings event floors =
     (case updateFloor (collection_slug event) event floors of
        (floorUpdated, floors') \<Rightarrow>
          if floorUpdated then
            (case getFloor (collection_slug event) floors' of
               Missing \<Rightarrow> (Inr (), floors', [UpdateBotStatus (getAllFloors floors')])
             | InheritedValue \<Rightarrow> (Inl UndefinedToFixed, floors', [])
             | FloorRecord newFloor \<Rightarrow>
                 (case await_then
                         (Inr (), [ConsoleLogFloor (display_name event) (price newFloor)
                                     (tokenSymbol newFloor)])
                         (await_then
                            (if enableFloorUpdateAlerts settings \<noteq> Some False
                             then sendFloorUpdateAlert (collection_slug event) (collection_name event)
                                    (price newFloor) (tokenSymbol newFloor)
                             else done_io)
                            (Inr (), [AddEvent (Ev_floor_update (price newFloor) (tokenSymbol newFloor)
                                                 (collection_slug event)),
                                      UpdateBotStatus (getAllFloors floors')])) of
                    (r, w) \<Rightarrow> (r, floors', w)))
          else (Inr (), floors', []))"

text \<open>One listing event: the result of the handler's promise, the floors afterwards
  and the effects. \<open>net\<close> is what the network answers to each request.\<close>

definition handleListingEvent ::
  "BotSettings \<Rightarrow> BotConfig \<Rightarrow> (request \<Rightarrow> http_outcome) \<Rightarrow> ListingEvent \<Rightarrow> CollectionFloors
     \<Rightarrow> (error + unit) \<times> CollectionFloors \<times> effect list" where
  "handleListingEvent settings config net event floors =
     (let w0 = [ConsoleLogListing (item_name event) (normalized_price event) (token_symbol event),
                AddEvent (Ev_listing (item_name event) (normalized_price event)
                            (token_symbol event) (collection_slug event))]
      in case price_trigger_step settings config net event of
           (Inl e, w1) \<Rightarrow> (Inl e, floors, w0 @ w1)
         | (Inr _, w1) \<Rightarrow>
             (case undercut_step settings config net event floors of
                (Throw e, w2) \<Rightarrow> (Inl e, floors, w0 @ w1 @ w2)
              | (Return, w2) \<Rightarrow> (Inr (), floors, w0 @ w1 @ w2)
              | (Proceed, w2) \<Rightarrow>
                  (case floor_update_step settings event floors of
                     (r, floors', w3) \<Rightarrow> (r, floors', w0 @ w1 @ w2 @ w3))))"

section \<open>Sequences of events and example inputs\<close>

text \<open>A listing of a collection with a base price and a number of decimals; the other
  fields are fixed.\<close>

definition listing :: "string \<Rightarrow> string \<Rightarrow> int \<Rightarrow> ListingEvent" where
  "listing slug bp d =
     \<lparr> item_name = ''Item #1'', item_image_url = ''https://img.example/1.png'',
       item_permalink = ''https://opensea.io/assets/1'', base_price = bp,
       token_symbol = ''ETH'', token_decimals = d, token_usd_price = ''2000'',
       event_timestamp = ''1700000000'', collection_slug = slug,
       collection_name = Some ''Azuki'' \<rparr>"

text \<open>The listing events of one collection, applied to the store in their order.\<close>

fun apply_listings :: "string \<Rightarrow> ListingEvent list \<Rightarrow> CollectionFloors \<Rightarrow> CollectionFloors" where
  "apply_listings c [] fl = fl"
| "apply_listings c (e # es) fl = apply_listings c es (snd (updateFloor c e fl))"

text \<open>A base price as the marketplace sends it: a string of decimal digits.\<close>

definition integer_string :: "string \<Rightarrow> bool" where
  "integer_string s = (s \<noteq> [] \<and> list_all (\<lambda>c. digit c \<noteq> None) s)"

text \<open>Settings with every optional field left out, a configuration without chat
  channels and one with both, and two networks: one that answers 200 to every request,
  one whose webhook answers 500.\<close>

definition default_settings :: BotSettings where
  "default_settings =
     \<lparr> minFloorPrice = None, maxFloorPrice = None, enableFloorUpdateAlerts = None,
       priceAlertMin = None, priceAlertMax = None, enablePriceTriggerAlerts = None \<rparr>"

definition console_config :: "number \<Rightarrow> BotConfig" where
  "console_config t =
     \<lparr> undercutThresholdPercent = t,
       notifications = \<lparr> discordWebhook = None, telegramBotToken = None, telegramChatId = None \<rparr> \<rparr>"

definition chat_config :: "number \<Rightarrow> BotConfig" where
  "chat_config t =
     \<lparr> undercutThresholdPercent = t,
       notifications = \<lparr> discordWebhook = Some ''https://discord.example/api/webhooks/1/x'',
                         telegramBotToken = Some ''123:abc'', telegramChatId = Some ''42'' \<rparr> \<rparr>"

definition net_ok :: "request \<Rightarrow> http_outcome" where
  "net_ok req = Responded (Some 200)"

definition net_webhook_down :: "request \<Rightarrow> http_outcome" where
  "net_webhook_down req =
     (case req of
        DiscordRequest url a \<Rightarrow> Responded (Some 500)
      | TelegramRequest token chat a \<Rightarrow> Responded (Some 200))"

section \<open>Reading the effects\<close>

text \<open>The alert that a request carries, the kinds of alert, and the effects that
  belong to an undercut alert or to a price-trigger alert: its console notification,
  its requests and its dashboard event.\<close>

fun request_alert :: "request \<Rightarrow> alert" where
  "request_alert (DiscordRequest url a) = a"
| "request_alert (TelegramRequest token chat a) = a"

fun is_undercut_alert :: "alert \<Rightarrow> bool" where
  "is_undercut_alert (UndercutAlert e lp fp pb) = True"
| "is_undercut_alert (PriceTriggerAlert e lp s r) = False"
| "is_undercut_alert (FloorUpdateAlert c n p s) = False"

fun is_price_trigger_alert :: "alert \<Rightarrow> bool" where
  "is_price_trigger_alert (PriceTriggerAlert e lp s r) = True"
| "is_price_trigger_alert (UndercutAlert e lp fp pb) = False"
| "is_price_trigger_alert (FloorUpdateAlert c n p s) = False"

fun is_floor_update_alert :: "alert \<Rightarrow> bool" where
  "is_floor_update_alert (FloorUpdateAlert c n p s) = True"
| "is_floor_update_alert (UndercutAlert e lp fp pb) = False"
| "is_floor_update_alert (PriceTriggerAlert e lp s r) = False"

fun undercut_effect :: "effect \<Rightarrow> bool" where
  "undercut_effect (ConsoleNotification a) = is_undercut_alert a"
| "undercut_effect (HttpPost r) = is_undercut_alert (request_alert r)"
| "undercut_effect (AddEvent (Ev_undercut i p s pb c)) = True"
| "undercut_effect (AddEvent (Ev_listing i p s c)) = False"
| "undercut_effect (AddEvent (Ev_price_alert i p s r c)) = False"
| "undercut_effect (AddEvent (Ev_floor_update p s c)) = False"
| "undercut_effect (ConsoleLogListing i p s) = False"
| "undercut_effect (ConsoleLogFloor n p s) = False"
| "undercut_effect (ConsoleError e) = False"
| "undercut_effect (UpdateBotStatus fl) = False"

fun price_trigger_effect :: "effect \<Rightarrow> bool" where
  "price_trigger_effect (ConsoleNotification a) = is_price_trigger_alert a"
| "price_trigger_effect (HttpPost r) = is_price_trigger_alert (request_alert r)"
| "price_trigger_effect (AddEvent (Ev_price_alert i p s r c)) = True"
| "price_trigger_effect (AddEvent (Ev_listing i p s c)) = False"
| "price_trigger_effect (AddEvent (Ev_undercut i p s pb c)) = False"
| "price_trigger_effect (AddEvent (Ev_floor_update p s c)) = False"
| "price_trigger_effect (ConsoleLogListing i p s) = False"
| "price_trigger_effect (ConsoleLogFloor n p s) = False"
| "price_trigger_effect (ConsoleError e) = False"
| "price_trigger_effect (UpdateBotStatus fl) = False"

text \<open>The alerts that were dispatched, in their order: each dispatch starts with the
  console notification of the alert.\<close>

fun sent_alerts :: "effect list \<Rightarrow> alert list" where
  "sent_alerts [] = []"
| "sent_alerts (ConsoleNotification a # w) = a # sent_alerts w"
| "sent_alerts (x # w) = sent_alerts w"

text \<open>The requests that were written to the network.\<close>

fun posted :: "effect list \<Rightarrow> request list" where
  "posted [] = []"
| "posted (HttpPost r # w) = r # posted w"
| "posted (x # w) = posted w"

definition effects_of :: "(error + unit) \<times> CollectionFloors \<times> effect list \<Rightarrow> effect list" where
  "effects_of res = snd (snd res)"

definition floors_of :: "(error + unit) \<times> CollectionFloors \<times> effect list \<Rightarrow> CollectionFloors" where
  "floors_of res = fst (snd res)"

definition result_of :: "(error + unit) \<times> CollectionFloors \<times> effect list \<Rightarrow> error + unit" where
  "result_of res = fst res"

text \<open>The effects that the dispatch of one alert can leave: its console notification,
  a request that carries it, and the log of a failed request.\<close>

fun dispatch_effect :: "alert \<Rightarrow> effect \<Rightarrow> bool" where
  "dispatch_effect a (ConsoleNotification b) = (b = a)"
| "dispatch_effect a (HttpPost r) = (request_alert r = a)"
| "dispatch_effect a (ConsoleError e) = True"
| "dispatch_effect a (AddEvent d) = False"
| "dispatch_effect a (ConsoleLogListing i p s) = False"
| "dispatch_effect a (ConsoleLogFloor n p s) = False"
| "dispatch_effect a (UpdateBotStatus fl) = False"

section \<open>The tracker as objects\<close>

text \<open>
  The floors above are values. In the program they are objects: \<open>this.floors\<close> refers to
  a dictionary object whose entries refer to floor records, and \<open>getFloor\<close> and
  \<open>getAllFloors\<close> hand references out. Where a claim depends on who shares which object,
  the tracker is read over a heap: a list of objects, a reference being an index.
  \<open>view t h\<close> is the store that \<open>getFloor\<close> and \<open>isUndercut\<close> see for the tracker whose
  dictionary is at \<open>t\<close>.
\<close>

datatype js_object = FloorsObject "string \<rightharpoonup> nat" | FloorObject FloorData

type_synonym heap = "js_object list"

definition entries :: "heap \<Rightarrow> nat \<Rightarrow> (string \<rightharpoonup> nat)" where
  "entries h r =
     (if r < length h then (case h ! r of FloorsObject d \<Rightarrow> d | FloorObject f \<Rightarrow> Map.empty)
      else Map.empty)"

definition record_at :: "heap \<Rightarrow> nat \<Rightarrow> FloorData option" where
  "record_at h r =
     (if r < length h then (case h ! r of FloorsObject d \<Rightarrow> None | FloorObject f \<Rightarrow> Some f)
      else None)"

definition view :: "nat \<Rightarrow> heap \<Rightarrow> CollectionFloors" where
  "view t h = (\<lambda>c. case entries h t c of None \<Rightarrow> None | Some r \<Rightarrow> record_at h r)"

text \<open>\<open>updateFloor\<close> assigns a new object literal to the entry; \<open>{ ...this.floors }\<close> is a
  new dictionary object with the entries of the tracker's, that is with the same
  references.\<close>

definition updateFloor_obj :: "string \<Rightarrow> ListingEvent \<Rightarrow> nat \<Rightarrow> heap \<Rightarrow> bool \<times> heap" where
  "updateFloor_obj collectionSlug event t h =
     (let stored = (h @ [FloorObject (new_floor event)])
                     [t := FloorsObject ((entries h t)(collectionSlug \<mapsto> length h))]
      in case lookup (view t h) collectionSlug of
           Missing \<Rightarrow> (True, stored)
         | FloorRecord currentFloor \<Rightarrow>
             if js_lt (normalized_price event) (price currentFloor) then (True, stored)
             else (False, h)
         | InheritedValue \<Rightarrow>
             if js_lt (normalized_price event) NaN then (True, stored) else (False, h))"

definition getAllFloors_obj :: "nat \<Rightarrow> heap \<Rightarrow> nat \<times> heap" where
  "getAllFloors_obj t h = (length h, h @ [FloorsObject (entries h t)])"

text \<open>What a caller can do with a dictionary it holds: \<open>d[k] = r\<close>, \<open>delete d[k]\<close> and
  \<open>d[k].price = x\<close> (which throws, and changes nothing, when \<open>d[k]\<close> is undefined).\<close>

definition assign_entry :: "nat \<Rightarrow> string \<Rightarrow> nat \<Rightarrow> heap \<Rightarrow> heap" where
  "assign_entry d k r h = h[d := FloorsObject ((entries h d)(k \<mapsto> r))]"

definition delete_entry :: "nat \<Rightarrow> string \<Rightarrow> heap \<Rightarrow> heap" where
  "delete_entry d k h = h[d := FloorsObject ((entries h d)(k := None))]"

definition assign_price :: "nat \<Rightarrow> string \<Rightarrow> number \<Rightarrow> heap \<Rightarrow> heap" where
  "assign_price d k x h =
     (case entries h d k of
        None \<Rightarrow> h
      | Some r \<Rightarrow>
          (case record_at h r of
             None \<Rightarrow> h
           | Some f \<Rightarrow> h[r := FloorObject (f\<lparr>price := x\<rparr>)]))"

text \<open>The heaps that a tracker builds: its dictionary is a dictionary object and every
  entry refers to a floor record.\<close>

definition tracker_ok :: "nat \<Rightarrow> heap \<Rightarrow> bool" where
  "tracker_ok t h =
     (t < length h \<and> (\<exists>d. h ! t = FloorsObject d)
      \<and> (\<forall>r\<in>ran (entries h t). record_at h r \<noteq> None))"

text \<open>A tracker at address 0 whose floor of \<open>azuki\<close> is 5.\<close>

definition example_heap :: heap where
  "example_heap =
     [FloorsObject [''azuki'' \<mapsto> 1], FloorObject (new_floor (listing ''azuki'' ''5'' 0))]"

section \<open>Properties\<close>

subsection \<open>Numbers and example values\<close>

lemmas number_eval =
  parseFloat_def parseInt10_def take_sign_def take_exponent_def digit_def is_space_def
  nat_of_digits_def mk_fin_def mk_zero_def mk_inf_def pow10_def ten_to_def
  round64_def round_half_even_def exponent_def pow2_def ilog2.simps Let_def
  js_lt_def js_gt_def js_ge_def js_le_def js_sub_def js_mul_def js_div_def truthy_number_def


lemma inherited_constructor: "inherited ''constructor''"
  by (simp add: inherited_def)

lemma lookup_own: "fl c = Some f \<Longrightarrow> lookup fl c = FloorRecord f"
  by (simp add: lookup_def)

lemma lookup_none: "fl c = None \<Longrightarrow> lookup fl c = (if inherited c then InheritedValue else Missing)"
  by (simp add: lookup_def)

lemma updateFloor_cases:
  "updateFloor c e fl =
     (if (fl c = None \<and> \<not> inherited c)
         \<or> (\<exists>f. fl c = Some f \<and> js_lt (normalized_price e) (price f))
      then (True, fl(c \<mapsto> new_floor e)) else (False, fl))"
  by (auto simp: updateFloor_def lookup_def js_lt_def split: option.splits)





lemma js_cmp_Fin:
  "js_lt (Fin a) (Fin b) = (a < b)" "js_gt (Fin a) (Fin b) = (b < a)"
  "js_ge (Fin a) (Fin b) = (b \<le> a)" "js_le (Fin a) (Fin b) = (a \<le> b)"
  by (auto simp: js_lt_def js_gt_def js_ge_def js_le_def)

text \<open>The percentages of the examples, as binary64 computes them: 20, 50 and -300 are
  exact; a listing at 0.8 under a floor of 1 is 19.999999999999996 percent below it.\<close>

lemma percent_examples:
  "js_mul (js_div (js_sub (Fin 5) (Fin 4)) (Fin 5)) (Fin 100) = Fin 20"
  "js_mul (js_div (js_sub (Fin 2) (Fin 1)) (Fin 2)) (Fin 100) = Fin 50"
  "js_mul (js_div (js_sub (Fin 1) (Fin 4)) (Fin 1)) (Fin 100) = Fin (- 300)"
  "js_mul (js_div (js_sub (Fin 1) (Fin (3602879701896397 / 4503599627370496))) (Fin 1)) (Fin 100)
     = Fin (5629499534213119 / 281474976710656)"
  "js_mul (js_div (js_sub (Fin 1) (Fin (2116691824864133 / 2251799813685248))) (Fin 1)) (Fin 100)
     = Fin (3377699720527875 / 562949953421312)"
  "js_mul (js_div (js_sub (Fin 1) (Fin (1080863910568919 / 1125899906842624))) (Fin 1)) (Fin 100)
     = Fin (1125899906842625 / 281474976710656)"
  by (simp_all add: number_eval)



lemma usd_value_units:
  "js_mul (Fin 2) (Fin 2000) = Fin 4000" "js_mul (Fin 3) (Fin 2000) = Fin 6000"
  "js_mul (Fin 4) (Fin 2000) = Fin 8000" "js_mul (Fin 5) (Fin 2000) = Fin 10000"
  by (simp_all add: number_eval)

lemma price_new_floor: "price (new_floor e) = normalized_price e"
  by (simp add: new_floor_def)




lemma listing_price_units: "normalized_price (listing c ''2'' 0) = Fin 2"
  "normalized_price (listing c ''1'' 0) = Fin 1" "normalized_price (listing c ''3'' 0) = Fin 3"
  "normalized_price (listing c ''4'' 0) = Fin 4" "normalized_price (listing c ''5'' 0) = Fin 5"
  by (simp_all add: normalized_price_def listing_def number_eval)




text \<open>A base price of 18 nines is no binary64 number: it parses to \<open>10^18\<close>.\<close>

lemma parseFloat_rounds: "parseFloat ''999999999999999999'' = Fin 1000000000000000000"
  by (simp add: number_eval)

subsection \<open>The rounding\<close>

lemma ilog2_bounds: "0 < n \<Longrightarrow> 2 ^ ilog2 n \<le> n \<and> n < 2 ^ Suc (ilog2 n)"
proof (induction n rule: ilog2.induct)
  case (1 n)
  show ?case
  proof (cases "n < 2")
    case True
    then have "n = 1" using 1(2) by simp
    then show ?thesis by (simp add: ilog2.simps)
  next
    case False
    then have pos: "0 < n div 2" by simp
    from 1(1) [OF False pos]
    have ih: "2 ^ ilog2 (n div 2) \<le> n div 2" "n div 2 < 2 ^ Suc (ilog2 (n div 2))" by simp_all
    have eq: "ilog2 n = Suc (ilog2 (n div 2))" using False by (simp add: ilog2.simps)
    have "2 * 2 ^ ilog2 (n div 2) \<le> n" using ih(1) by simp
    moreover have "n < 2 * 2 ^ Suc (ilog2 (n div 2))" using ih(2) by simp
    ultimately show ?thesis by (simp add: eq)
  qed
qed

lemma pow2_pos: "0 < pow2 k"
  by (simp add: pow2_def)

lemma pow2_Suc: "pow2 (k + 1) = 2 * pow2 k"
proof (cases "0 \<le> k")
  case True
  then show ?thesis by (simp add: pow2_def nat_add_distrib)
next
  case False
  then obtain m where k: "k = - int (Suc m)"
    by (metis add.inverse_inverse linorder_not_le nat_0_le neg_0_less_iff_less not0_implies_Suc
        of_nat_0_less_iff of_nat_nat order_less_imp_le zero_less_nat_eq)
  have k1: "k + 1 = - int m" using k by simp
  show ?thesis unfolding k1 unfolding k by (cases m) (simp_all add: pow2_def nat_add_distrib)
qed

text \<open>\<open>exponent a\<close> is the exponent of \<open>a\<close>.\<close>

lemma exponent_bounds:
  assumes "0 < a"
  shows "pow2 (exponent a) \<le> a \<and> a < pow2 (exponent a + 1)"
proof (cases "1 \<le> a")
  case True
  let ?n = "nat \<lfloor>a\<rfloor>"
  have n: "0 < ?n" using True by simp
  have lo: "real ?n \<le> a" and hi: "a < real ?n + 1" using True by linarith+
  from ilog2_bounds [OF n]
  have b: "(2::nat) ^ ilog2 ?n \<le> ?n" "?n + 1 \<le> 2 ^ Suc (ilog2 ?n)" by simp_all
  have 1: "(2::real) ^ ilog2 ?n \<le> a"
  proof -
    have "(2::real) ^ ilog2 ?n = real (2 ^ ilog2 ?n)" by simp
    also have "\<dots> \<le> real ?n" using b(1) of_nat_le_iff by blast
    also have "\<dots> \<le> a" by (rule lo)
    finally show ?thesis .
  qed
  have 2: "a < (2::real) ^ Suc (ilog2 ?n)"
  proof -
    have "real (?n + 1) \<le> real (2 ^ Suc (ilog2 ?n))" using b(2) of_nat_le_iff by blast
    also have "\<dots> = (2::real) ^ Suc (ilog2 ?n)" by simp
    finally have "real ?n + 1 \<le> (2::real) ^ Suc (ilog2 ?n)" by simp
    then show ?thesis using hi by linarith
  qed
  have e: "exponent a = int (ilog2 ?n)" using True by (simp add: exponent_def)
  show ?thesis using 1 2 by (simp add: e pow2_def nat_add_distrib)
next
  case False
  let ?m = "nat \<lceil>1 / a\<rceil>"
  have inv: "1 < 1 / a" using False assms by simp
  then have m2: "2 \<le> ?m" by linarith
  have up: "1 / a \<le> real ?m" using inv by linarith
  have dn: "real ?m - 1 < 1 / a" using inv by linarith
  let ?k = "ilog2 (?m - 1)"
  have pos: "0 < ?m - 1" using m2 by linarith
  note ib = ilog2_bounds [OF pos]
  have b1: "(2::nat) ^ ?k \<le> ?m - 1" using ib by (rule conjunct1)
  have "?m - 1 < 2 ^ Suc ?k" using ib by (rule conjunct2)
  then have b2: "?m \<le> 2 ^ Suc ?k" using m2 by linarith
  note b = b1 b2
  have 1: "(2::real) ^ ?k < 1 / a"
  proof -
    have "(2::real) ^ ?k = real (2 ^ ?k)" by simp
    also have "\<dots> \<le> real (?m - 1)" using b(1) of_nat_le_iff by blast
    also have "\<dots> = real ?m - 1" using m2 by (simp add: of_nat_diff)
    finally show ?thesis using dn by linarith
  qed
  have 2: "1 / a \<le> (2::real) ^ Suc ?k"
  proof -
    have "real ?m \<le> real (2 ^ Suc ?k)" using b(2) of_nat_le_iff by blast
    also have "\<dots> = (2::real) ^ Suc ?k" by simp
    finally show ?thesis using up by linarith
  qed
  have "\<not> ?m \<le> 1" using m2 by linarith
  then have e: "exponent a = - int (Suc ?k)" using False unfolding exponent_def by simp
  have lo: "1 / 2 ^ Suc ?k \<le> a"
  proof -
    have "1 \<le> a * (2::real) ^ Suc ?k" using 2 assms by (simp add: field_simps)
    then show ?thesis by (simp add: field_simps)
  qed
  have hi: "a < 1 / 2 ^ ?k"
  proof -
    have "a * (2::real) ^ ?k < 1" using 1 assms by (simp add: field_simps)
    then show ?thesis by (simp add: field_simps)
  qed
  have p1: "pow2 (exponent a) = 1 / 2 ^ Suc ?k" by (simp add: e pow2_def nat_add_distrib)
  have p2: "pow2 (exponent a + 1) = 1 / 2 ^ ?k"
    unfolding pow2_Suc p1 by simp
  show ?thesis unfolding p1 p2 using lo hi by simp
qed

lemma round_half_even_nearest: "\<bar>of_int (round_half_even q) - q\<bar> \<le> 1 / 2"
  unfolding round_half_even_def by (simp; linarith)

lemma round_half_even_nonneg: "0 \<le> q \<Longrightarrow> 0 \<le> round_half_even q"
  unfolding round_half_even_def by (simp; linarith)

text \<open>The value of \<open>round64 x\<close>, when it is finite, is within half a unit in the last
  place of \<open>x\<close>, and has the sign of \<open>x\<close>.\<close>

lemma round64_error:
  assumes "round64 x = Fin r"
  shows "\<bar>r - x\<bar> \<le> pow2 (max (exponent \<bar>x\<bar>) (- 1022) - 52) / 2"
proof (cases "x = 0")
  case True
  then show ?thesis using assms pow2_pos [of "max (exponent \<bar>x\<bar>) (- 1022) - 52"]
    by (simp add: round64_def)
next
  case False
  let ?u = "pow2 (max (exponent \<bar>x\<bar>) (- 1022) - 52)"
  let ?n = "round_half_even (\<bar>x\<bar> / ?u)"
  have u: "0 < ?u" by (rule pow2_pos)
  have near: "\<bar>of_int ?n - \<bar>x\<bar> / ?u\<bar> \<le> 1 / 2" by (rule round_half_even_nearest)
  have "of_int ?n * ?u - \<bar>x\<bar> = (of_int ?n - \<bar>x\<bar> / ?u) * ?u"
    using u by (simp add: field_simps)
  then have "\<bar>of_int ?n * ?u - \<bar>x\<bar>\<bar> = \<bar>of_int ?n - \<bar>x\<bar> / ?u\<bar> * \<bar>?u\<bar>"
    by (simp only: abs_mult)
  also have "\<dots> = \<bar>of_int ?n - \<bar>x\<bar> / ?u\<bar> * ?u" using u by simp
  also have "\<dots> \<le> 1 / 2 * ?u" using near u by (intro mult_right_mono) simp_all
  finally have d: "\<bar>of_int ?n * ?u - \<bar>x\<bar>\<bar> \<le> ?u / 2" by simp
  define A where "A = of_int ?n * ?u"
  have dA: "\<bar>A - \<bar>x\<bar>\<bar> \<le> ?u / 2" using d by (simp add: A_def)
  have r: "r = (if x < 0 then - A else A) \<or> r = 0 \<and> A = 0"
    using assms False
    by (auto simp: A_def round64_def Let_def mk_inf_def mk_zero_def split: if_splits)
  show ?thesis
  proof (cases "x < 0")
    case True
    from r have "r = - A \<or> r = 0 \<and> A = 0" using True by simp
    then show ?thesis
    proof
      assume "r = - A"
      then have "r - x = - (A - \<bar>x\<bar>)" using True by simp
      then have "\<bar>r - x\<bar> = \<bar>A - \<bar>x\<bar>\<bar>" by (simp only: abs_minus_cancel)
      then show ?thesis using dA by simp
    next
      assume "r = 0 \<and> A = 0"
      then show ?thesis using dA by simp
    qed
  next
    case nonneg: False
    from r have "r = A \<or> r = 0 \<and> A = 0" using nonneg by simp
    then show ?thesis
    proof
      assume "r = A"
      then have "r - x = A - \<bar>x\<bar>" using nonneg by simp
      then show ?thesis using dA by simp
    next
      assume "r = 0 \<and> A = 0"
      then show ?thesis using dA by simp
    qed
  qed
qed

lemma round64_sign:
  "x \<le> 0 \<Longrightarrow> \<not> js_lt (Fin 0) (round64 x)" "0 \<le> x \<Longrightarrow> \<not> js_lt (round64 x) (Fin 0)"
proof -
  let ?u = "pow2 (max (exponent \<bar>x\<bar>) (- 1022) - 52)"
  have n: "0 \<le> real_of_int (round_half_even (\<bar>x\<bar> / ?u)) * ?u"
    using round_half_even_nonneg [of "\<bar>x\<bar> / ?u"] pow2_pos [of "max (exponent \<bar>x\<bar>) (- 1022) - 52"]
    by simp
  show "x \<le> 0 \<Longrightarrow> \<not> js_lt (Fin 0) (round64 x)"
    using n by (auto simp: round64_def Let_def mk_inf_def mk_zero_def js_lt_def)
  show "0 \<le> x \<Longrightarrow> \<not> js_lt (round64 x) (Fin 0)"
    using n by (auto simp: round64_def Let_def mk_inf_def mk_zero_def js_lt_def)
qed

text \<open>Overflow and underflow: a value of \<open>2^1024\<close> or more is infinite, a positive value
  of \<open>2^(-1075)\<close> or less is zero.\<close>

lemma pow2_power_int: "pow2 k = power_int 2 k"
  by (simp add: pow2_def power_int_def field_simps)

lemma pow2_add: "pow2 (a + b) = pow2 a * pow2 b"
  by (simp add: pow2_power_int power_int_add)

lemma pow2_mono: "a \<le> b \<Longrightarrow> pow2 a \<le> pow2 b"
  by (simp add: pow2_power_int power_int_increasing)

lemma pow2_less_cancel: "pow2 a < pow2 b \<Longrightarrow> a < b"
  using pow2_mono [of b a] by (cases "a < b") simp_all

lemma round64_overflow:
  assumes "pow2 1024 \<le> x"
  shows "round64 x = PInf"
proof -
  have x: "0 < x" using assms pow2_pos [of 1024] by linarith
  let ?e = "exponent \<bar>x\<bar>"
  from exponent_bounds [of "\<bar>x\<bar>"] x
  have b: "pow2 ?e \<le> x" "x < pow2 (?e + 1)" by simp_all
  have "pow2 1024 < pow2 (?e + 1)" using assms b(2) by linarith
  then have e: "1024 \<le> ?e" using pow2_less_cancel [of 1024 "?e + 1"] by simp
  let ?u = "pow2 (max ?e (- 1022) - 52)"
  have u: "?u = pow2 (?e - 52)" using e by (simp add: max_def)
  have up: "0 < ?u" by (rule pow2_pos)
  let ?n = "round_half_even (\<bar>x\<bar> / ?u)"
  have split: "pow2 ?e = pow2 52 * ?u"
    unfolding u using pow2_add [of 52 "?e - 52"] by simp
  have "pow2 52 \<le> \<bar>x\<bar> / ?u"
    using b(1) x up unfolding split by (simp add: field_simps)
  moreover have "\<bar>x\<bar> / ?u - 1 / 2 \<le> of_int ?n"
    using round_half_even_nearest [of "\<bar>x\<bar> / ?u"] by linarith
  ultimately have "pow2 52 - 1 / 2 \<le> of_int ?n" by linarith
  moreover have "pow2 52 = of_int (2 ^ 52)" by (simp add: pow2_def)
  ultimately have "(2::int) ^ 52 \<le> ?n" by linarith
  then have "pow2 52 \<le> of_int ?n" by (simp add: pow2_def)
  then have "pow2 52 * ?u \<le> of_int ?n * ?u" using up by (intro mult_right_mono) simp_all
  then have "pow2 ?e \<le> of_int ?n * ?u" by (simp only: split)
  moreover have "pow2 1024 \<le> pow2 ?e" using e by (rule pow2_mono)
  ultimately have big: "pow2 1024 \<le> of_int ?n * ?u" by linarith
  show ?thesis
    using x big by (simp add: round64_def Let_def mk_inf_def)
qed

text \<open>\<open>Math.pow(10, 309)\<close> and \<open>parseFloat('1e309')\<close> are infinite.\<close>

lemma pow10_overflow: "pow10 309 = PInf"
  unfolding pow10_def by (rule round64_overflow) (simp add: pow2_def ten_to_def)

lemma parseFloat_overflow: "parseFloat ''1e309'' = PInf"
proof -
  have "parseFloat ''1e309'' = round64 (10 ^ 309)"
    by (simp add: parseFloat_def take_sign_def take_exponent_def digit_def is_space_def
        nat_of_digits_def mk_fin_def ten_to_def Let_def)
  also have "\<dots> = PInf" by (rule round64_overflow) (simp add: pow2_def)
  finally show ?thesis .
qed

lemma pow2_le_cancel: "pow2 a \<le> pow2 b \<Longrightarrow> a \<le> b"
  using pow2_mono [of "b + 1" a] pow2_Suc [of b] pow2_pos [of b] by (cases "a \<le> b") simp_all

lemma round64_underflow:
  assumes "0 < x" "x \<le> pow2 (- 1075)"
  shows "round64 x = Fin 0"
proof -
  let ?e = "exponent \<bar>x\<bar>"
  from exponent_bounds [of "\<bar>x\<bar>"] assms(1)
  have "pow2 ?e \<le> x" by simp
  then have "pow2 ?e \<le> pow2 (- 1075)" using assms(2) by linarith
  then have e: "?e \<le> - 1075" by (rule pow2_le_cancel)
  let ?u = "pow2 (max ?e (- 1022) - 52)"
  have u: "?u = pow2 (- 1074)" using e by (simp add: max_def)
  have "pow2 (- 1074) = 2 * pow2 (- 1075)" using pow2_Suc [of "- 1075"] by simp
  then have half: "pow2 (- 1075) = ?u / 2" unfolding u by simp
  have up: "0 < ?u" by (rule pow2_pos)
  have q: "0 < \<bar>x\<bar> / ?u" "\<bar>x\<bar> / ?u \<le> 1 / 2"
    using assms up unfolding half by (simp_all add: field_simps)
  then have fl: "\<lfloor>\<bar>x\<bar> / ?u\<rfloor> = 0" by linarith
  have "round_half_even (\<bar>x\<bar> / ?u) = 0"
    using q unfolding round_half_even_def fl by simp
  then show ?thesis
    using assms(1) pow2_pos [of 1024] by (simp add: round64_def Let_def mk_zero_def)
qed

text \<open>\<open>Math.pow(10, -324)\<close> is zero.\<close>

lemma pow10_underflow: "pow10 (- 324) = Fin 0"
  unfolding pow10_def by (rule round64_underflow) (simp_all add: pow2_def ten_to_def)

subsection \<open>updateFloor\<close>

text \<open>A slug that names an inherited property finds a value that is no record: the
  condition \<open>!currentFloor\<close> is false, the comparison with its missing price is false,
  and nothing is stored.\<close>

lemma updateFloor_inherited:
  "inherited c \<Longrightarrow> fl c = None \<Longrightarrow> updateFloor c e fl = (False, fl)"
  by (simp add: updateFloor_def lookup_def js_lt_def)




subsection \<open>isUndercut\<close>

text \<open>For a slug that names an inherited property and has no record, the floor price
  of the verdict is \<open>undefined\<close> and the percentage is NaN, whatever the listing.\<close>

lemma isUndercut_inherited:
  "inherited c \<Longrightarrow> fl c = None \<Longrightarrow>
     isUndercut c e t fl =
       \<lparr> isUndercut_flag = False, listingPrice = normalized_price e,
         floorPrice = None, percentBelow = NaN \<rparr>"
  by (simp add: isUndercut_def getFloor_def lookup_def js_sub_def js_div_def js_mul_def js_ge_def)




text \<open>The rounding keeps the sign, so the percentage of a listing that is not under a
  positive floor is not positive, and such a listing is not flagged at a positive
  threshold: a flagged listing is strictly under the floor.\<close>

lemma js_sub_nonpos: "p \<le> l \<Longrightarrow> \<not> js_lt (Fin 0) (js_sub (Fin p) (Fin l))"
proof (cases "p - l = 0")
  case True
  then show ?thesis by (simp add: js_sub_def mk_zero_def js_lt_def)
next
  case False
  assume "p \<le> l"
  then have "\<not> js_lt (Fin 0) (round64 (p - l))" by (intro round64_sign(1)) simp
  then show ?thesis using False by (simp add: js_sub_def)
qed

lemma mk_fin_nonpos: "x \<le> 0 \<Longrightarrow> \<not> js_lt (Fin 0) (mk_fin s x)"
  using round64_sign(1) [of x] by (simp add: mk_fin_def mk_zero_def js_lt_def)

lemma js_div_nonpos:
  assumes "\<not> js_lt (Fin 0) a" "0 < p"
  shows "\<not> js_lt (Fin 0) (js_div a (Fin p))"
proof (cases a)
  case (Fin r)
  then have "r / p \<le> 0" using assms by (simp add: js_lt_def divide_nonpos_pos)
  then show ?thesis using Fin assms(2) by (simp add: js_div_def mk_fin_nonpos)
qed (use assms in \<open>simp_all add: js_div_def mk_fin_def mk_zero_def mk_inf_def js_lt_def\<close>)

lemma js_mul_nonpos:
  assumes "\<not> js_lt (Fin 0) a" "0 < p"
  shows "\<not> js_lt (Fin 0) (js_mul a (Fin p))"
proof (cases a)
  case (Fin r)
  then have "r * p \<le> 0" using assms by (simp add: js_lt_def mult_nonpos_nonneg)
  then show ?thesis using Fin assms(2) by (simp add: js_mul_def mk_fin_nonpos)
qed (use assms in \<open>simp_all add: js_mul_def mk_fin_def mk_zero_def mk_inf_def js_lt_def\<close>)

lemma flagged_is_below_floor:
  assumes "fl c = Some f" "price f = Fin p" "0 < p" "normalized_price e = Fin l" "0 < th"
    and "isUndercut_flag (isUndercut c e (Fin th) fl)"
  shows "l < p"
proof (rule ccontr)
  assume "\<not> l < p"
  then have "p \<le> l" by simp
  let ?pb = "js_mul (js_div (js_sub (Fin p) (Fin l)) (Fin p)) (Fin 100)"
  have "\<not> js_lt (Fin 0) ?pb"
    by (intro js_mul_nonpos js_div_nonpos js_sub_nonpos \<open>p \<le> l\<close> assms(3)) simp
  then have "\<not> js_ge ?pb (Fin th)"
    using assms(5) by (cases ?pb) (auto simp: js_ge_def js_lt_def)
  moreover have "isUndercut_flag (isUndercut c e (Fin th) fl) = js_ge ?pb (Fin th)"
    using assms(1,2,4) by (simp add: isUndercut_def getFloor_def lookup_def Let_def)
  ultimately show False using assms(6) by simp
qed

subsection \<open>The floor over a sequence of listings\<close>




text \<open>A slug that names an inherited property never gets a record.\<close>

lemma apply_listings_inherited:
  "inherited c \<Longrightarrow> fl c = None \<Longrightarrow> apply_listings c es fl = fl"
  by (induction es) (simp_all add: updateFloor_inherited)

lemma take_digits_all:
  "list_all (\<lambda>c. digit c \<noteq> None) s \<Longrightarrow> take_digits s = (map (\<lambda>c. the (digit c)) s, [])"
  by (induction s) auto

lemma digit_not_other:
  assumes "digit c \<noteq> None"
  shows "\<not> is_space c" "c \<noteq> CHR ''-''" "c \<noteq> CHR ''+''" "c \<noteq> CHR ''I''"
  using assms by (auto simp: digit_def is_space_def Let_def split: if_splits)

lemma round64_not_NaN: "round64 x \<noteq> NaN"
  by (simp add: round64_def Let_def mk_inf_def mk_zero_def)

lemma mk_fin_not_NaN: "mk_fin s x \<noteq> NaN"
  by (simp add: mk_fin_def mk_zero_def round64_not_NaN)

lemma parseFloat_integer_string:
  assumes "integer_string s"
  shows "parseFloat s = mk_fin False (real (nat_of_digits (map (\<lambda>c. the (digit c)) s)))"
proof -
  obtain c cs where s: "s = c # cs" and c: "digit c \<noteq> None"
    and all: "list_all (\<lambda>c. digit c \<noteq> None) s"
    using assms by (cases s) (auto simp: integer_string_def)
  have 1: "dropWhile is_space s = s" using s digit_not_other(1) [OF c] by simp
  have 2: "take_sign s = (False, s)"
    using s digit_not_other(2,3) [OF c] by (simp add: take_sign_def)
  have 3: "take 8 s \<noteq> ''Infinity''" using s digit_not_other(4) [OF c] by auto
  have 4: "take_digits s = (map (\<lambda>c. the (digit c)) s, [])" using all by (rule take_digits_all)
  have 5: "map (\<lambda>c. the (digit c)) s \<noteq> []" using s by simp
  show ?thesis
    unfolding parseFloat_def 1 2 using 3 5
    by (simp add: 4 take_exponent_def ten_to_def Let_def nat_of_digits_def)
qed

text \<open>The powers of ten from 0 to 22 are binary64 numbers: \<open>Math.pow\<close> is exact there.\<close>

lemma pow10_exact:
  assumes "d \<in> set [0..22]"
  shows "pow10 d = Fin (10 ^ nat d)"
proof -
  have "\<forall>d\<in>set [0..22]. pow10 d = Fin (10 ^ nat d)"
    unfolding upto.simps [of 0 22] upto.simps [of 1 22] upto.simps [of 2 22]
    by (simp add: upto.simps number_eval)
  then show ?thesis using assms by blast
qed

text \<open>An event whose base price is a string of digits and whose decimals are between
  0 and 22 has a price that is not NaN.\<close>

lemma integer_string_price:
  assumes "integer_string (base_price e)" "token_decimals e \<in> set [0..22]"
  shows "normalized_price e \<noteq> NaN"
proof -
  have "is_inf a \<or> a = NZero \<or> (\<exists>r. a = Fin r)" if "a \<noteq> NaN" for a
    using that by (cases a) auto
  then show ?thesis
    unfolding normalized_price_def parseFloat_integer_string [OF assms(1)]
      pow10_exact [OF assms(2)]
    using mk_fin_not_NaN [of False]
    by (auto simp: js_div_def mk_inf_def mk_zero_def mk_fin_not_NaN)
qed

text \<open>The hypothesis on the prices is needed: a record whose price is NaN is never
  replaced, since no number is lower than NaN.\<close>

lemma nan_floor_is_kept:
  "fl c = Some f \<Longrightarrow> price f = NaN \<Longrightarrow> apply_listings c es fl c = Some f"
proof (induction es arbitrary: fl)
  case Nil
  then show ?case by simp
next
  case (Cons e es)
  have "snd (updateFloor c e fl) = fl"
    using Cons.prems by (simp add: updateFloor_cases js_lt_def)
  then show ?case using Cons by simp
qed




subsection \<open>The parts of the handler\<close>

lemma sent_alerts_append: "sent_alerts (u @ w) = sent_alerts u @ sent_alerts w"
  by (induction u rule: sent_alerts.induct) simp_all

lemma posted_append: "posted (u @ w) = posted u @ posted w"
  by (induction u rule: posted.induct) simp_all

lemma snd_await_then: "snd (await_then a b) = (if isl (fst a) then snd a else snd a @ snd b)"
  by (cases a; cases "fst a") (simp_all add: await_then_def)

lemma fst_await_then: "fst (await_then a b) = (if isl (fst a) then fst a else fst b)"
  by (cases a; cases "fst a") (simp_all add: await_then_def)

lemma await_then_all:
  "list_all P (snd a) \<Longrightarrow> list_all P (snd b) \<Longrightarrow> list_all P (snd (await_then a b))"
  by (simp add: snd_await_then)

lemma makeHttpsRequest_dispatch:
  "request_alert req = a \<Longrightarrow> list_all (dispatch_effect a) (snd (makeHttpsRequest req out))"
  by (cases out) (simp_all add: makeHttpsRequest_def)

lemma sendDiscordNotification_dispatch:
  "list_all (dispatch_effect a) (snd (sendDiscordNotification cfg net a e))"
  by (simp add: sendDiscordNotification_def done_io_def makeHttpsRequest_dispatch
      split: option.splits)

lemma sendTelegramNotification_dispatch:
  "list_all (dispatch_effect a) (snd (sendTelegramNotification cfg net a))"
  by (simp add: sendTelegramNotification_def done_io_def makeHttpsRequest_dispatch
      split: option.splits)

lemma send_to_channels_dispatch:
  "list_all (dispatch_effect a) (snd (send_to_channels cfg net a e))"
  unfolding send_to_channels_def
  by (intro await_then_all)
    (simp_all add: sendConsoleNotification_def done_io_def sendDiscordNotification_dispatch
      sendTelegramNotification_dispatch)

lemma dispatch_effect_kinds:
  "dispatch_effect a x \<Longrightarrow> undercut_effect x = (is_undercut_alert a \<and> (\<forall>er. x \<noteq> ConsoleError er))"
  "dispatch_effect a x \<Longrightarrow> price_trigger_effect x = (is_price_trigger_alert a \<and> (\<forall>er. x \<noteq> ConsoleError er))"
  by (cases x; auto)+

lemma price_trigger_step_off:
  "\<not> truthy_flag (enablePriceTriggerAlerts st) \<Longrightarrow> price_trigger_step st cfg net e = (Inr (), [])"
  by (simp add: price_trigger_step_def done_io_def)

lemma undercut_step_off:
  "truthy_flag (enablePriceTriggerAlerts st) \<Longrightarrow> undercut_step st cfg net e fl = (Proceed, [])"
  by (simp add: undercut_step_def)

lemma price_trigger_step_on:
  "truthy_flag (enablePriceTriggerAlerts st) \<Longrightarrow>
     price_trigger_step st cfg net e =
       (if fst (price_trigger_decision st (normalized_price e)) then
          await_then
            (send_to_channels (notifications cfg) net
               (PriceTriggerAlert e (normalized_price e) (token_symbol e)
                  (snd (price_trigger_decision st (normalized_price e)))) e)
            (Inr (), [AddEvent (Ev_price_alert (item_name e) (normalized_price e) (token_symbol e)
                                 (snd (price_trigger_decision st (normalized_price e)))
                                 (collection_slug e))])
        else (Inr (), []))"
  by (simp add: price_trigger_step_def sendPriceTriggerAlert_def done_io_def split: prod.splits)

lemma updateFloor_stored:
  "fst (updateFloor c e fl) \<Longrightarrow> getFloor c (snd (updateFloor c e fl)) = FloorRecord (new_floor e)"
  by (auto simp: updateFloor_cases getFloor_def lookup_def split: if_splits)

text \<open>A flagged verdict comes from a record: its floor price is the price of the record.\<close>

lemma flagged_has_floor:
  assumes "isUndercut_flag (isUndercut c e t fl)"
  shows "\<exists>f. fl c = Some f \<and> floorPrice (isUndercut c e t fl) = Some (price f)"
proof (cases "fl c")
  case None
  then show ?thesis
    using assms
    by (cases "inherited c")
      (simp_all add: isUndercut_def getFloor_def lookup_def js_sub_def js_div_def js_mul_def
        js_ge_def)
next
  case (Some f)
  then show ?thesis by (simp add: isUndercut_def getFloor_def lookup_def Let_def)
qed

lemma floor_update_step_result: "fst (floor_update_step st e fl) = Inr ()"
proof (cases "updateFloor (collection_slug e) e fl")
  case (Pair u fl')
  show ?thesis
  proof (cases u)
    case True
    then have "getFloor (collection_slug e) fl' = FloorRecord (new_floor e)"
      using updateFloor_stored [of "collection_slug e" e fl] Pair by simp
    then show ?thesis
      using Pair True
      by (simp add: floor_update_step_def await_then_def sendFloorUpdateAlert_def
          sendConsoleNotification_def done_io_def)
  next
    case False
    then show ?thesis using Pair by (simp add: floor_update_step_def)
  qed
qed

lemma floor_update_step_floors:
  "fst (snd (floor_update_step st e fl)) = snd (updateFloor (collection_slug e) e fl)"
  by (simp add: floor_update_step_def split: prod.splits floor_value.splits)

lemma floor_update_step_effects:
  "snd (snd (floor_update_step st e fl)) =
     (if fst (updateFloor (collection_slug e) e fl) then
        [ConsoleLogFloor (display_name e) (normalized_price e) (token_symbol e)]
        @ (if enableFloorUpdateAlerts st \<noteq> Some False
           then [ConsoleNotification (FloorUpdateAlert (collection_slug e) (collection_name e)
                                        (normalized_price e) (token_symbol e))]
           else [])
        @ [AddEvent (Ev_floor_update (normalized_price e) (token_symbol e) (collection_slug e)),
           UpdateBotStatus (snd (updateFloor (collection_slug e) e fl))]
      else [])"
proof (cases "updateFloor (collection_slug e) e fl")
  case (Pair u fl')
  show ?thesis
  proof (cases u)
    case True
    then have "getFloor (collection_slug e) fl' = FloorRecord (new_floor e)"
      using updateFloor_stored [of "collection_slug e" e fl] Pair by simp
    then show ?thesis
      using Pair True
      by (simp add: floor_update_step_def getAllFloors_def await_then_def
          sendFloorUpdateAlert_def sendConsoleNotification_def done_io_def new_floor_def)
  next
    case False
    then show ?thesis using Pair by (simp add: floor_update_step_def)
  qed
qed

lemma handle_price_mode:
  assumes "truthy_flag (enablePriceTriggerAlerts st)"
  shows "handleListingEvent st cfg net e fl =
     (let w0 = [ConsoleLogListing (item_name e) (normalized_price e) (token_symbol e),
                AddEvent (Ev_listing (item_name e) (normalized_price e) (token_symbol e)
                            (collection_slug e))];
          pt = price_trigger_step st cfg net e
      in if isl (fst pt) then (fst pt, fl, w0 @ snd pt)
         else (Inr (), snd (updateFloor (collection_slug e) e fl),
               w0 @ snd pt @ snd (snd (floor_update_step st e fl))))"
proof -
  obtain r fl' w3 where fu: "floor_update_step st e fl = (r, fl', w3)"
    by (cases "floor_update_step st e fl") auto
  have r: "r = Inr ()" using floor_update_step_result [of st e fl] fu by simp
  have fl': "fl' = snd (updateFloor (collection_slug e) e fl)"
    using floor_update_step_floors [of st e fl] fu by simp
  show ?thesis
    by (cases "price_trigger_step st cfg net e"; cases "fst (price_trigger_step st cfg net e)")
      (simp_all add: handleListingEvent_def undercut_step_off [OF assms] fu r fl' Let_def)
qed

lemma handle_undercut_mode:
  assumes "\<not> truthy_flag (enablePriceTriggerAlerts st)"
  shows "handleListingEvent st cfg net e fl =
     (let w0 = [ConsoleLogListing (item_name e) (normalized_price e) (token_symbol e),
                AddEvent (Ev_listing (item_name e) (normalized_price e) (token_symbol e)
                            (collection_slug e))];
          uc = undercut_step st cfg net e fl
      in case fst uc of
           Throw er \<Rightarrow> (Inl er, fl, w0 @ snd uc)
         | Return \<Rightarrow> (Inr (), fl, w0 @ snd uc)
         | Proceed \<Rightarrow> (Inr (), snd (updateFloor (collection_slug e) e fl),
                        w0 @ snd uc @ snd (snd (floor_update_step st e fl))))"
proof -
  obtain r fl' w3 where fu: "floor_update_step st e fl = (r, fl', w3)"
    by (cases "floor_update_step st e fl") auto
  have r: "r = Inr ()" using floor_update_step_result [of st e fl] fu by simp
  have fl': "fl' = snd (updateFloor (collection_slug e) e fl)"
    using floor_update_step_floors [of st e fl] fu by simp
  show ?thesis
    by (cases "undercut_step st cfg net e fl"; cases "fst (undercut_step st cfg net e fl)")
      (simp_all add: handleListingEvent_def price_trigger_step_off [OF assms] fu r fl' Let_def)
qed
lemma undercut_step_on:
  assumes "\<not> truthy_flag (enablePriceTriggerAlerts st)"
  shows "undercut_step st cfg net e fl =
       (let v = isUndercut (collection_slug e) e (undercutThresholdPercent cfg) fl;
            sent = await_then
                     (send_to_channels (notifications cfg) net
                        (UndercutAlert e (listingPrice v) (to_number (floorPrice v))
                           (percentBelow v)) e)
                     (Inr (), [AddEvent (Ev_undercut (item_name e) (normalized_price e)
                                          (token_symbol e) (percentBelow v) (collection_slug e))])
        in if isUndercut_flag v then
             (if below_min_floor st (floorPrice v) \<or> above_max_floor st (floorPrice v)
              then (Return, [])
              else (case fst sent of Inl er \<Rightarrow> Throw er | Inr u \<Rightarrow> Proceed, snd sent))
           else (Proceed, []))"
proof (cases "isUndercut_flag (isUndercut (collection_slug e) e (undercutThresholdPercent cfg) fl)")
  case True
  from flagged_has_floor [OF True] obtain f :: FloorData where
    f: "floorPrice (isUndercut (collection_slug e) e (undercutThresholdPercent cfg) fl)
          = Some (price f)"
    by blast
  show ?thesis
    using assms True
    by (simp add: undercut_step_def sendUndercutAlert_def f to_number_def Let_def
        split: prod.splits sum.splits)
next
  case False
  then show ?thesis using assms by (simp add: undercut_step_def Let_def)
qed

lemma makeHttpsRequest_sent: "sent_alerts (snd (makeHttpsRequest req out)) = []"
  by (cases out) (simp_all add: makeHttpsRequest_def)

lemma sendDiscordNotification_sent: "sent_alerts (snd (sendDiscordNotification cfg net a e)) = []"
  by (simp add: sendDiscordNotification_def done_io_def makeHttpsRequest_sent split: option.splits)

lemma sendTelegramNotification_sent: "sent_alerts (snd (sendTelegramNotification cfg net a)) = []"
  by (simp add: sendTelegramNotification_def done_io_def makeHttpsRequest_sent split: option.splits)

lemma send_to_channels_sent: "sent_alerts (snd (send_to_channels cfg net a e)) = [a]"
  by (simp add: send_to_channels_def snd_await_then fst_await_then sent_alerts_append
      sendConsoleNotification_def done_io_def sendDiscordNotification_sent
      sendTelegramNotification_sent)

lemma dispatch_not_undercut:
  "\<not> is_undercut_alert a \<Longrightarrow> list_all (dispatch_effect a) w \<Longrightarrow>
     list_all (\<lambda>x. \<not> undercut_effect x) w"
  by (induction w) (auto simp: dispatch_effect_kinds)

lemma dispatch_not_price_trigger:
  "\<not> is_price_trigger_alert a \<Longrightarrow> list_all (dispatch_effect a) w \<Longrightarrow>
     list_all (\<lambda>x. \<not> price_trigger_effect x) w"
  by (induction w) (auto simp: dispatch_effect_kinds)

lemma floor_update_step_kinds:
  "list_all (\<lambda>x. \<not> undercut_effect x) (snd (snd (floor_update_step st e fl)))"
  "list_all (\<lambda>x. \<not> price_trigger_effect x) (snd (snd (floor_update_step st e fl)))"
  by (simp_all add: floor_update_step_effects)

lemma price_trigger_step_no_undercut:
  "list_all (\<lambda>x. \<not> undercut_effect x) (snd (price_trigger_step st cfg net e))"
proof (cases "truthy_flag (enablePriceTriggerAlerts st)")
  case True
  show ?thesis
    unfolding price_trigger_step_on [OF True]
    by (simp add: snd_await_then
        dispatch_not_undercut [OF _ send_to_channels_dispatch])
next
  case False
  then show ?thesis by (simp add: price_trigger_step_off)
qed

lemma undercut_step_no_price_trigger:
  "list_all (\<lambda>x. \<not> price_trigger_effect x) (snd (undercut_step st cfg net e fl))"
proof (cases "truthy_flag (enablePriceTriggerAlerts st)")
  case True
  then show ?thesis by (simp add: undercut_step_off)
next
  case False
  show ?thesis
    unfolding undercut_step_on [OF False]
    by (simp add: Let_def snd_await_then
        dispatch_not_price_trigger [OF _ send_to_channels_dispatch])
qed

lemma price_trigger_step_config:
  "price_trigger_step st (cfg\<lparr>undercutThresholdPercent := t\<rparr>) net e = price_trigger_step st cfg net e"
  by (simp add: price_trigger_step_def split: prod.splits)

subsection \<open>The two families of alerts\<close>

text \<open>
  C7. The price-trigger alerts and the undercut alerts exclude each other for every
  event. When \<open>enablePriceTriggerAlerts\<close> is set in the snapshot of the settings, the
  handler leaves no effect of an undercut alert (no notification, no request, no
  dashboard event), and the undercut verdict plays no part: the outcome is the same for
  every threshold. When it is not set, the handler leaves no effect of a price-trigger
  alert.
\<close>

theorem alert_families_exclusive:
  "(truthy_flag (enablePriceTriggerAlerts st) \<longrightarrow>
      list_all (\<lambda>x. \<not> undercut_effect x) (effects_of (handleListingEvent st cfg net e fl))
      \<and> (\<forall>t. handleListingEvent st (cfg\<lparr>undercutThresholdPercent := t\<rparr>) net e fl
               = handleListingEvent st cfg net e fl))
   \<and> (\<not> truthy_flag (enablePriceTriggerAlerts st) \<longrightarrow>
      list_all (\<lambda>x. \<not> price_trigger_effect x) (effects_of (handleListingEvent st cfg net e fl)))"
proof (intro conjI impI allI)
  assume on: "truthy_flag (enablePriceTriggerAlerts st)"
  show "list_all (\<lambda>x. \<not> undercut_effect x) (effects_of (handleListingEvent st cfg net e fl))"
    unfolding handle_price_mode [OF on] effects_of_def
    by (simp add: Let_def price_trigger_step_no_undercut floor_update_step_kinds)
  fix t
  show "handleListingEvent st (cfg\<lparr>undercutThresholdPercent := t\<rparr>) net e fl
          = handleListingEvent st cfg net e fl"
    unfolding handle_price_mode [OF on] price_trigger_step_config ..
next
  assume off: "\<not> truthy_flag (enablePriceTriggerAlerts st)"
  show "list_all (\<lambda>x. \<not> price_trigger_effect x) (effects_of (handleListingEvent st cfg net e fl))"
    unfolding handle_undercut_mode [OF off] effects_of_def
    by (cases "fst (undercut_step st cfg net e fl)")
      (simp_all add: Let_def undercut_step_no_price_trigger floor_update_step_kinds)
qed
subsection \<open>Evaluating the handler on the example inputs\<close>

lemma listing_fields:
  "item_name (listing c bp d) = ''Item #1''"
  "item_image_url (listing c bp d) = ''https://img.example/1.png''"
  "item_permalink (listing c bp d) = ''https://opensea.io/assets/1''"
  "base_price (listing c bp d) = bp"
  "token_symbol (listing c bp d) = ''ETH''"
  "token_decimals (listing c bp d) = d"
  "token_usd_price (listing c bp d) = ''2000''"
  "event_timestamp (listing c bp d) = ''1700000000''"
  "collection_slug (listing c bp d) = c"
  "collection_name (listing c bp d) = Some ''Azuki''"
  by (simp_all add: listing_def)

lemma listing_time: "valid_time (js_mul (parseInt10 (event_timestamp (listing c bp d))) (Fin 1000))"
  by (simp add: listing_fields valid_time_def number_eval)

lemma symbol_new_floor: "tokenSymbol (new_floor e) = token_symbol e"
  by (simp add: new_floor_def)

lemmas handler_eval = symbol_new_floor
  handleListingEvent_def price_trigger_step_def undercut_step_def floor_update_step_def
  price_trigger_decision_def below_min_floor_def above_max_floor_def
  sendPriceTriggerAlert_def sendUndercutAlert_def sendFloorUpdateAlert_def send_to_channels_def
  sendDiscordNotification_def sendTelegramNotification_def sendConsoleNotification_def
  makeHttpsRequest_def await_then_def done_io_def truthy_flag_def truthy_string_def
  truthy_number_def status_ok_def display_name_def isUndercut_def
  getFloor_def getAllFloors_def updateFloor_cases price_new_floor listing_time
  listing_fields(1,5,9,10) listing_price_units js_cmp_Fin percent_examples
  lookup_def inherited_def to_number_def
  default_settings_def console_config_def chat_config_def net_ok_def net_webhook_down_def
  effects_of_def floors_of_def result_of_def Let_def

lemma example_price_mode:
  "handleListingEvent (default_settings\<lparr>enablePriceTriggerAlerts := Some True, priceAlertMin := Some (Fin 2)\<rparr>)
     (chat_config (Fin 0)) net_ok (listing ''azuki'' ''1'' 0)
     [''azuki'' \<mapsto> new_floor (listing ''azuki'' ''5'' 0)] =
   (Inr (), [''azuki'' \<mapsto> new_floor (listing ''azuki'' ''1'' 0)],
    [ConsoleLogListing ''Item #1'' (Fin 1) ''ETH'',
     AddEvent (Ev_listing ''Item #1'' (Fin 1) ''ETH'' ''azuki''),
     ConsoleNotification (PriceTriggerAlert (listing ''azuki'' ''1'' 0) (Fin 1) ''ETH'' (Below (Fin 2))),
     HttpPost (DiscordRequest ''https://discord.example/api/webhooks/1/x''
       (PriceTriggerAlert (listing ''azuki'' ''1'' 0) (Fin 1) ''ETH'' (Below (Fin 2)))),
     HttpPost (TelegramRequest ''123:abc'' ''42''
       (PriceTriggerAlert (listing ''azuki'' ''1'' 0) (Fin 1) ''ETH'' (Below (Fin 2)))),
     AddEvent (Ev_price_alert ''Item #1'' (Fin 1) ''ETH'' (Below (Fin 2)) ''azuki''),
     ConsoleLogFloor ''Azuki'' (Fin 1) ''ETH'',
     ConsoleNotification (FloorUpdateAlert ''azuki'' (Some ''Azuki'') (Fin 1) ''ETH''),
     AddEvent (Ev_floor_update (Fin 1) ''ETH'' ''azuki''),
     UpdateBotStatus [''azuki'' \<mapsto> new_floor (listing ''azuki'' ''1'' 0)]])"
  by (simp add: handler_eval)

lemma example_undercut_mode:
  "handleListingEvent default_settings (chat_config (Fin 0)) net_ok (listing ''azuki'' ''4'' 0)
     [''azuki'' \<mapsto> new_floor (listing ''azuki'' ''5'' 0)] =
   (Inr (), [''azuki'' \<mapsto> new_floor (listing ''azuki'' ''4'' 0)],
    [ConsoleLogListing ''Item #1'' (Fin 4) ''ETH'',
     AddEvent (Ev_listing ''Item #1'' (Fin 4) ''ETH'' ''azuki''),
     ConsoleNotification (UndercutAlert (listing ''azuki'' ''4'' 0) (Fin 4) (Fin 5) (Fin 20)),
     HttpPost (DiscordRequest ''https://discord.example/api/webhooks/1/x''
       (UndercutAlert (listing ''azuki'' ''4'' 0) (Fin 4) (Fin 5) (Fin 20))),
     HttpPost (TelegramRequest ''123:abc'' ''42''
       (UndercutAlert (listing ''azuki'' ''4'' 0) (Fin 4) (Fin 5) (Fin 20))),
     AddEvent (Ev_undercut ''Item #1'' (Fin 4) ''ETH'' (Fin 20) ''azuki''),
     ConsoleLogFloor ''Azuki'' (Fin 4) ''ETH'',
     ConsoleNotification (FloorUpdateAlert ''azuki'' (Some ''Azuki'') (Fin 4) ''ETH''),
     AddEvent (Ev_floor_update (Fin 4) ''ETH'' ''azuki''),
     UpdateBotStatus [''azuki'' \<mapsto> new_floor (listing ''azuki'' ''4'' 0)]])"
  by (simp add: handler_eval)

text \<open>With the price triggers on, a minimum of 2 and a listing at 1 under a floor of 5:
  one price-trigger alert and nothing of an undercut, whatever the threshold. With the
  price triggers off, a listing at 4 under a floor of 5: an undercut alert and nothing
  of a price trigger.\<close>

theorem alert_families_exclusive_witness:
  "truthy_flag (enablePriceTriggerAlerts
      (default_settings\<lparr>enablePriceTriggerAlerts := Some True, priceAlertMin := Some (Fin 2)\<rparr>))
   \<and> list_all (\<lambda>x. \<not> undercut_effect x)
       (effects_of (handleListingEvent
          (default_settings\<lparr>enablePriceTriggerAlerts := Some True, priceAlertMin := Some (Fin 2)\<rparr>)
          (chat_config (Fin 0)) net_ok (listing ''azuki'' ''1'' 0)
          [''azuki'' \<mapsto> new_floor (listing ''azuki'' ''5'' 0)]))
   \<and> handleListingEvent
          (default_settings\<lparr>enablePriceTriggerAlerts := Some True, priceAlertMin := Some (Fin 2)\<rparr>)
          ((chat_config (Fin 0))\<lparr>undercutThresholdPercent := Fin 90\<rparr>) net_ok (listing ''azuki'' ''1'' 0)
          [''azuki'' \<mapsto> new_floor (listing ''azuki'' ''5'' 0)]
       = handleListingEvent
          (default_settings\<lparr>enablePriceTriggerAlerts := Some True, priceAlertMin := Some (Fin 2)\<rparr>)
          (chat_config (Fin 0)) net_ok (listing ''azuki'' ''1'' 0)
          [''azuki'' \<mapsto> new_floor (listing ''azuki'' ''5'' 0)]
   \<and> \<not> truthy_flag (enablePriceTriggerAlerts default_settings)
   \<and> list_all (\<lambda>x. \<not> price_trigger_effect x)
       (effects_of (handleListingEvent default_settings (chat_config (Fin 0)) net_ok
          (listing ''azuki'' ''4'' 0) [''azuki'' \<mapsto> new_floor (listing ''azuki'' ''5'' 0)]))
   \<and> list_ex undercut_effect
       (effects_of (handleListingEvent default_settings (chat_config (Fin 0)) net_ok
          (listing ''azuki'' ''4'' 0) [''azuki'' \<mapsto> new_floor (listing ''azuki'' ''5'' 0)]))
   \<and> list_ex price_trigger_effect
       (effects_of (handleListingEvent
          (default_settings\<lparr>enablePriceTriggerAlerts := Some True, priceAlertMin := Some (Fin 2)\<rparr>)
          (chat_config (Fin 0)) net_ok (listing ''azuki'' ''1'' 0)
          [''azuki'' \<mapsto> new_floor (listing ''azuki'' ''5'' 0)]))"
proof -
  have on: "truthy_flag (enablePriceTriggerAlerts
      (default_settings\<lparr>enablePriceTriggerAlerts := Some True, priceAlertMin := Some (Fin 2)\<rparr>))"
    by (simp add: truthy_flag_def)
  have off: "\<not> truthy_flag (enablePriceTriggerAlerts default_settings)"
    by (simp add: truthy_flag_def default_settings_def)
  show ?thesis
    using on off
      alert_families_exclusive [of
        "default_settings\<lparr>enablePriceTriggerAlerts := Some True, priceAlertMin := Some (Fin 2)\<rparr>"
        "chat_config (Fin 0)" net_ok "listing ''azuki'' ''1'' 0"
        "[''azuki'' \<mapsto> new_floor (listing ''azuki'' ''5'' 0)]"]
      alert_families_exclusive [of default_settings "chat_config (Fin 0)" net_ok
        "listing ''azuki'' ''4'' 0" "[''azuki'' \<mapsto> new_floor (listing ''azuki'' ''5'' 0)]"]
    by (simp add: example_price_mode example_undercut_mode effects_of_def)
qed

subsection \<open>The reason of a price-trigger alert\<close>

lemma price_trigger_decision_cases:
  "price_trigger_decision st lp =
     (case priceAlertMax st of
        Some M \<Rightarrow>
          if js_gt lp M then (True, Above M)
          else (case priceAlertMin st of
                  Some m \<Rightarrow> if js_lt lp m then (True, Below m) else (False, NoReason)
                | None \<Rightarrow> (False, NoReason))
      | None \<Rightarrow>
          (case priceAlertMin st of
             Some m \<Rightarrow> if js_lt lp m then (True, Below m) else (False, NoReason)
           | None \<Rightarrow> (False, NoReason)))"
  by (simp add: price_trigger_decision_def split: option.splits)

lemma price_mode_sent_alerts:
  assumes "truthy_flag (enablePriceTriggerAlerts st)"
  shows "filter is_price_trigger_alert
           (sent_alerts (effects_of (handleListingEvent st cfg net e fl))) =
         (if fst (price_trigger_decision st (normalized_price e))
          then [PriceTriggerAlert e (normalized_price e) (token_symbol e)
                  (snd (price_trigger_decision st (normalized_price e)))]
          else [])"
  unfolding handle_price_mode [OF assms] effects_of_def price_trigger_step_on [OF assms]
  by (simp add: Let_def sent_alerts_append snd_await_then send_to_channels_sent
      floor_update_step_effects)

text \<open>
  C6. For every event processed with the price-trigger alerts enabled: when the listing
  price crosses the minimum only, one price-trigger alert is produced and its reason
  names the minimum; when it crosses the maximum only, the reason names the maximum;
  when both bounds are set and both are crossed, exactly one alert is produced and its
  reason is that of the maximum, which is checked second and overwrites the first.
\<close>

theorem price_trigger_reason:
  assumes "truthy_flag (enablePriceTriggerAlerts st)"
  shows "(\<forall>m. priceAlertMin st = Some m \<and> js_lt (normalized_price e) m
             \<and> \<not> (\<exists>M. priceAlertMax st = Some M \<and> js_gt (normalized_price e) M) \<longrightarrow>
           filter is_price_trigger_alert
             (sent_alerts (effects_of (handleListingEvent st cfg net e fl))) =
           [PriceTriggerAlert e (normalized_price e) (token_symbol e) (Below m)])
       \<and> (\<forall>M. priceAlertMax st = Some M \<and> js_gt (normalized_price e) M
             \<and> \<not> (\<exists>m. priceAlertMin st = Some m \<and> js_lt (normalized_price e) m) \<longrightarrow>
           filter is_price_trigger_alert
             (sent_alerts (effects_of (handleListingEvent st cfg net e fl))) =
           [PriceTriggerAlert e (normalized_price e) (token_symbol e) (Above M)])
       \<and> (\<forall>m M. priceAlertMin st = Some m \<and> js_lt (normalized_price e) m
             \<and> priceAlertMax st = Some M \<and> js_gt (normalized_price e) M \<longrightarrow>
           filter is_price_trigger_alert
             (sent_alerts (effects_of (handleListingEvent st cfg net e fl))) =
           [PriceTriggerAlert e (normalized_price e) (token_symbol e) (Above M)])"
proof -
  have sent: "filter is_price_trigger_alert
           (sent_alerts (effects_of (handleListingEvent st cfg net e fl))) =
         (if fst (price_trigger_decision st (normalized_price e))
          then [PriceTriggerAlert e (normalized_price e) (token_symbol e)
                  (snd (price_trigger_decision st (normalized_price e)))]
          else [])"
    by (rule price_mode_sent_alerts [OF assms])
  have only_min: "price_trigger_decision st (normalized_price e) = (True, Below m)"
    if "priceAlertMin st = Some m" "js_lt (normalized_price e) m"
      "\<not> (\<exists>M. priceAlertMax st = Some M \<and> js_gt (normalized_price e) M)" for m
    using that by (simp add: price_trigger_decision_cases split: option.splits)
  have max: "price_trigger_decision st (normalized_price e) = (True, Above M)"
    if "priceAlertMax st = Some M" "js_gt (normalized_price e) M" for M
    using that by (simp add: price_trigger_decision_cases split: option.splits)
  show ?thesis
    by (intro conjI allI impI) (simp_all add: sent only_min max)
qed

text \<open>A listing at 1 under a minimum of 2; a listing at 3 over a maximum of 2; a listing
  at 3 under a minimum of 5 and over a maximum of 2.\<close>

theorem price_trigger_reason_witness:
  "filter is_price_trigger_alert (sent_alerts (effects_of (handleListingEvent
      (default_settings\<lparr>enablePriceTriggerAlerts := Some True, priceAlertMin := Some (Fin 2)\<rparr>)
      (chat_config (Fin 0)) net_ok (listing ''azuki'' ''1'' 0) Map.empty))) =
     [PriceTriggerAlert (listing ''azuki'' ''1'' 0) (Fin 1) ''ETH'' (Below (Fin 2))]
   \<and> filter is_price_trigger_alert (sent_alerts (effects_of (handleListingEvent
      (default_settings\<lparr>enablePriceTriggerAlerts := Some True, priceAlertMax := Some (Fin 2)\<rparr>)
      (chat_config (Fin 0)) net_ok (listing ''azuki'' ''3'' 0) Map.empty))) =
     [PriceTriggerAlert (listing ''azuki'' ''3'' 0) (Fin 3) ''ETH'' (Above (Fin 2))]
   \<and> filter is_price_trigger_alert (sent_alerts (effects_of (handleListingEvent
      (default_settings\<lparr>enablePriceTriggerAlerts := Some True, priceAlertMin := Some (Fin 5),
          priceAlertMax := Some (Fin 2)\<rparr>)
      (chat_config (Fin 0)) net_ok (listing ''azuki'' ''3'' 0) Map.empty))) =
     [PriceTriggerAlert (listing ''azuki'' ''3'' 0) (Fin 3) ''ETH'' (Above (Fin 2))]"
proof -
  let ?s1 = "default_settings\<lparr>enablePriceTriggerAlerts := Some True, priceAlertMin := Some (Fin 2)\<rparr>"
  let ?s2 = "default_settings\<lparr>enablePriceTriggerAlerts := Some True, priceAlertMax := Some (Fin 2)\<rparr>"
  let ?s3 = "default_settings\<lparr>enablePriceTriggerAlerts := Some True, priceAlertMin := Some (Fin 5),
          priceAlertMax := Some (Fin 2)\<rparr>"
  have on: "truthy_flag (enablePriceTriggerAlerts ?s1)" "truthy_flag (enablePriceTriggerAlerts ?s2)"
    "truthy_flag (enablePriceTriggerAlerts ?s3)"
    by (simp_all add: truthy_flag_def)
  show ?thesis
    using price_trigger_reason [OF on(1), of "listing ''azuki'' ''1'' 0"
        "chat_config (Fin 0)" net_ok Map.empty]
      price_trigger_reason [OF on(2), of "listing ''azuki'' ''3'' 0"
        "chat_config (Fin 0)" net_ok Map.empty]
      price_trigger_reason [OF on(3), of "listing ''azuki'' ''3'' 0"
        "chat_config (Fin 0)" net_ok Map.empty]
    by (simp add: listing_price_units listing_fields js_cmp_Fin default_settings_def)
qed

subsection \<open>The floor-price filters\<close>

lemma filtered_undercut_returns:
  assumes "\<not> truthy_flag (enablePriceTriggerAlerts st)"
    and "isUndercut_flag (isUndercut (collection_slug e) e (undercutThresholdPercent cfg) fl)"
    and "below_min_floor st (floorPrice (isUndercut (collection_slug e) e (undercutThresholdPercent cfg) fl))
       \<or> above_max_floor st (floorPrice (isUndercut (collection_slug e) e (undercutThresholdPercent cfg) fl))"
  shows "handleListingEvent st cfg net e fl =
     (Inr (), fl,
      [ConsoleLogListing (item_name e) (normalized_price e) (token_symbol e),
       AddEvent (Ev_listing (item_name e) (normalized_price e) (token_symbol e) (collection_slug e))])"
proof -
  have "undercut_step st cfg net e fl = (Return, [])"
    using assms(2,3) by (simp add: undercut_step_on [OF assms(1)] Let_def)
  then show ?thesis
    by (simp add: handle_undercut_mode [OF assms(1)] Let_def)
qed







lemma example_verdict:
  "isUndercut ''azuki'' (listing ''azuki'' ''4'' 0) (Fin 0)
     [''azuki'' \<mapsto> new_floor (listing ''azuki'' ''5'' 0)] =
   \<lparr> isUndercut_flag = True, listingPrice = Fin 4, floorPrice = Some (Fin 5),
     percentBelow = Fin 20 \<rparr>"
  by (simp add: isUndercut_def getFloor_def lookup_def price_new_floor listing_price_units
      js_cmp_Fin percent_examples)


text \<open>
  C1. For every listing event whose undercut verdict is flagged but whose floor price is
  outside the band of \<open>minFloorPrice\<close> and \<open>maxFloorPrice\<close>, no undercut alert is produced
  and \<open>updateFloor\<close> is still invoked, so that the floor is updated whenever the price of
  the event is strictly lower than the floor. The handler does not do this: the filter
  returns from the handler, before the floor update. Here the floor is 5, the minimum is
  10 and the listing is at 4: the verdict is flagged, \<open>updateFloor\<close> would replace the
  record, and the handler leaves the floor at 5.
\<close>

theorem filtered_undercut_skips_floor_update:
  "isUndercut ''azuki'' (listing ''azuki'' ''4'' 0) (Fin 0)
     [''azuki'' \<mapsto> new_floor (listing ''azuki'' ''5'' 0)] =
     \<lparr> isUndercut_flag = True, listingPrice = Fin 4, floorPrice = Some (Fin 5),
       percentBelow = Fin 20 \<rparr>
   \<and> updateFloor ''azuki'' (listing ''azuki'' ''4'' 0)
       [''azuki'' \<mapsto> new_floor (listing ''azuki'' ''5'' 0)] =
     (True, [''azuki'' \<mapsto> new_floor (listing ''azuki'' ''4'' 0)])
   \<and> handleListingEvent (default_settings\<lparr>minFloorPrice := Some (Fin 10)\<rparr>)
       (console_config (Fin 0)) net_ok (listing ''azuki'' ''4'' 0)
       [''azuki'' \<mapsto> new_floor (listing ''azuki'' ''5'' 0)] =
     (Inr (), [''azuki'' \<mapsto> new_floor (listing ''azuki'' ''5'' 0)],
      [ConsoleLogListing ''Item #1'' (Fin 4) ''ETH'',
       AddEvent (Ev_listing ''Item #1'' (Fin 4) ''ETH'' ''azuki'')])
   \<and> getFloor ''azuki'' (floors_of (handleListingEvent (default_settings\<lparr>minFloorPrice := Some (Fin 10)\<rparr>)
          (console_config (Fin 0)) net_ok (listing ''azuki'' ''4'' 0)
          [''azuki'' \<mapsto> new_floor (listing ''azuki'' ''5'' 0)]))
       = FloorRecord (new_floor (listing ''azuki'' ''5'' 0))
   \<and> price (new_floor (listing ''azuki'' ''5'' 0)) = Fin 5"
proof -
  have h: "handleListingEvent (default_settings\<lparr>minFloorPrice := Some (Fin 10)\<rparr>)
       (console_config (Fin 0)) net_ok (listing ''azuki'' ''4'' 0)
       [''azuki'' \<mapsto> new_floor (listing ''azuki'' ''5'' 0)] =
     (Inr (), [''azuki'' \<mapsto> new_floor (listing ''azuki'' ''5'' 0)],
      [ConsoleLogListing ''Item #1'' (Fin 4) ''ETH'',
       AddEvent (Ev_listing ''Item #1'' (Fin 4) ''ETH'' ''azuki'')])"
    by (simp add: handler_eval)
  have u: "updateFloor ''azuki'' (listing ''azuki'' ''4'' 0)
       [''azuki'' \<mapsto> new_floor (listing ''azuki'' ''5'' 0)] =
     (True, [''azuki'' \<mapsto> new_floor (listing ''azuki'' ''4'' 0)])"
    by (simp add: updateFloor_cases price_new_floor listing_price_units js_cmp_Fin)
  show ?thesis
    by (simp add: h u example_verdict floors_of_def getFloor_def lookup_def price_new_floor
        listing_price_units)
qed

subsection \<open>The channels of a dispatch\<close>

lemma makeHttpsRequest_posted:
  "posted (snd (makeHttpsRequest req out)) = (if out = UrlRejected then [] else [req])"
  by (cases out) (simp_all add: makeHttpsRequest_def)

lemma sendDiscordNotification_on:
  "discordWebhook cfg = Some url \<Longrightarrow> url \<noteq> [] \<Longrightarrow>
     valid_time (js_mul (parseInt10 (event_timestamp e)) (Fin 1000)) \<Longrightarrow>
     sendDiscordNotification cfg net a e =
       makeHttpsRequest (DiscordRequest url a) (net (DiscordRequest url a))"
  by (simp add: sendDiscordNotification_def)

lemma sendTelegramNotification_on:
  "telegramBotToken cfg = Some token \<Longrightarrow> telegramChatId cfg = Some chat \<Longrightarrow>
     token \<noteq> [] \<Longrightarrow> chat \<noteq> [] \<Longrightarrow>
     sendTelegramNotification cfg net a =
       makeHttpsRequest (TelegramRequest token chat a) (net (TelegramRequest token chat a))"
  by (simp add: sendTelegramNotification_def)

lemma send_to_channels_parts:
  "send_to_channels cfg net a e =
     (let d = (if truthy_string (discordWebhook cfg)
               then sendDiscordNotification cfg net a e else (Inr (), []));
          t = (if truthy_string (telegramBotToken cfg) \<and> truthy_string (telegramChatId cfg)
               then sendTelegramNotification cfg net a else (Inr (), []))
      in if isl (fst d) then (fst d, ConsoleNotification a # snd d)
         else (fst t, ConsoleNotification a # snd d @ snd t))"
  by (rule prod_eqI)
    (simp_all add: send_to_channels_def fst_await_then snd_await_then sendConsoleNotification_def
      done_io_def Let_def)

lemma webhook_failure:
  assumes "discordWebhook cfg = Some url" "url \<noteq> []"
    and "valid_time (js_mul (parseInt10 (event_timestamp e)) (Fin 1000))"
    and "net (DiscordRequest url a) = ConnectionFailed
         \<or> (\<exists>sc. net (DiscordRequest url a) = Responded sc \<and> \<not> status_ok sc)"
  shows "send_to_channels cfg net a e =
     (Inl (case net (DiscordRequest url a) of
             Responded sc \<Rightarrow> HttpStatusError sc | _ \<Rightarrow> TransportError),
      [ConsoleNotification a, HttpPost (DiscordRequest url a),
       ConsoleError (case net (DiscordRequest url a) of
                       Responded sc \<Rightarrow> HttpStatusError sc | _ \<Rightarrow> TransportError)])"
  using assms(4)
  by (auto simp: send_to_channels_parts truthy_string_def assms(1,2)
      sendDiscordNotification_on [OF assms(1,2,3)] makeHttpsRequest_def Let_def)

lemma rejected_dispatch_undercut:
  assumes "\<not> truthy_flag (enablePriceTriggerAlerts st)"
    and "isUndercut_flag (isUndercut (collection_slug e) e (undercutThresholdPercent cfg) fl)"
    and "\<not> below_min_floor st (floorPrice (isUndercut (collection_slug e) e (undercutThresholdPercent cfg) fl))"
    and "\<not> above_max_floor st (floorPrice (isUndercut (collection_slug e) e (undercutThresholdPercent cfg) fl))"
    and "a = UndercutAlert e (normalized_price e)
               (to_number
                  (floorPrice (isUndercut (collection_slug e) e (undercutThresholdPercent cfg) fl)))
               (percentBelow (isUndercut (collection_slug e) e (undercutThresholdPercent cfg) fl))"
    and "send_to_channels (notifications cfg) net a e = (Inl er, w)"
  shows "handleListingEvent st cfg net e fl =
     (Inl er, fl,
      [ConsoleLogListing (item_name e) (normalized_price e) (token_symbol e),
       AddEvent (Ev_listing (item_name e) (normalized_price e) (token_symbol e) (collection_slug e))]
      @ w)"
proof -
  let ?v = "isUndercut (collection_slug e) e (undercutThresholdPercent cfg) fl"
  have lp: "listingPrice ?v = normalized_price e"
    by (simp add: isUndercut_def Let_def split: floor_value.splits)
  have "undercut_step st cfg net e fl = (Throw er, w)"
    using assms(2,3,4,6) unfolding assms(5)
    by (simp add: undercut_step_on [OF assms(1)] Let_def lp await_then_def)
  then show ?thesis
    by (simp add: handle_undercut_mode [OF assms(1)] Let_def)
qed

lemma rejected_dispatch_price_trigger:
  assumes "truthy_flag (enablePriceTriggerAlerts st)"
    and "price_trigger_decision st (normalized_price e) = (True, reason)"
    and "a = PriceTriggerAlert e (normalized_price e) (token_symbol e) reason"
    and "send_to_channels (notifications cfg) net a e = (Inl er, w)"
  shows "handleListingEvent st cfg net e fl =
     (Inl er, fl,
      [ConsoleLogListing (item_name e) (normalized_price e) (token_symbol e),
       AddEvent (Ev_listing (item_name e) (normalized_price e) (token_symbol e) (collection_slug e))]
      @ w)"
proof -
  have "price_trigger_step st cfg net e = (Inl er, w)"
    using assms(2,4) unfolding assms(3)
    by (simp add: price_trigger_step_on [OF assms(1)] await_then_def)
  then show ?thesis
    by (simp add: handle_price_mode [OF assms(1)] Let_def)
qed

lemma telegram_attempted:
  assumes "telegramBotToken cfg = Some token" "telegramChatId cfg = Some chat"
    and "token \<noteq> []" "chat \<noteq> []"
    and "net (TelegramRequest token chat a) \<noteq> UrlRejected"
    and "\<not> truthy_string (discordWebhook cfg)
         \<or> \<not> isl (fst (sendDiscordNotification cfg net a e))"
  shows "TelegramRequest token chat a \<in> set (posted (snd (send_to_channels cfg net a e)))"
  using assms(5,6)
  by (auto simp: send_to_channels_parts Let_def truthy_string_def assms(1-4) posted_append
      sendTelegramNotification_on [OF assms(1-4)] makeHttpsRequest_posted)

text \<open>
  C2, as the code has it. When the webhook send of an alert fails with a status outside
  2xx or with a transport error, the failure is logged and the dispatch rejects: the
  only request is the one to the webhook, so the direct-message channel is not
  attempted for that alert. The rejection leaves the handler: for an undercut alert and
  for a price-trigger alert the handler rejects with the same error and the floors are
  those before the event. When no webhook is configured, or its send resolves, the
  direct-message channel is attempted whenever a bot token and a chat identifier are
  configured.
\<close>

theorem webhook_failure_rejects_dispatch:
  "(discordWebhook (notifications cfg) = Some url \<and> url \<noteq> []
      \<and> valid_time (js_mul (parseInt10 (event_timestamp e)) (Fin 1000))
      \<and> (net (DiscordRequest url a) = ConnectionFailed
           \<or> (\<exists>sc. net (DiscordRequest url a) = Responded sc \<and> \<not> status_ok sc)) \<longrightarrow>
      isl (fst (send_to_channels (notifications cfg) net a e))
      \<and> snd (send_to_channels (notifications cfg) net a e) =
          [ConsoleNotification a, HttpPost (DiscordRequest url a),
           ConsoleError (projl (fst (send_to_channels (notifications cfg) net a e)))]
      \<and> posted (snd (send_to_channels (notifications cfg) net a e)) = [DiscordRequest url a])
   \<and> (\<not> truthy_flag (enablePriceTriggerAlerts st)
       \<and> isUndercut_flag (isUndercut (collection_slug e) e (undercutThresholdPercent cfg) fl)
       \<and> \<not> below_min_floor st (floorPrice (isUndercut (collection_slug e) e (undercutThresholdPercent cfg) fl))
       \<and> \<not> above_max_floor st (floorPrice (isUndercut (collection_slug e) e (undercutThresholdPercent cfg) fl))
       \<and> a = UndercutAlert e (normalized_price e)
               (to_number
                  (floorPrice (isUndercut (collection_slug e) e (undercutThresholdPercent cfg) fl)))
               (percentBelow (isUndercut (collection_slug e) e (undercutThresholdPercent cfg) fl))
       \<and> isl (fst (send_to_channels (notifications cfg) net a e)) \<longrightarrow>
      result_of (handleListingEvent st cfg net e fl) = fst (send_to_channels (notifications cfg) net a e)
      \<and> floors_of (handleListingEvent st cfg net e fl) = fl
      \<and> posted (effects_of (handleListingEvent st cfg net e fl))
          = posted (snd (send_to_channels (notifications cfg) net a e)))
   \<and> (\<forall>reason. truthy_flag (enablePriceTriggerAlerts st)
       \<and> price_trigger_decision st (normalized_price e) = (True, reason)
       \<and> a = PriceTriggerAlert e (normalized_price e) (token_symbol e) reason
       \<and> isl (fst (send_to_channels (notifications cfg) net a e)) \<longrightarrow>
      result_of (handleListingEvent st cfg net e fl) = fst (send_to_channels (notifications cfg) net a e)
      \<and> floors_of (handleListingEvent st cfg net e fl) = fl
      \<and> posted (effects_of (handleListingEvent st cfg net e fl))
          = posted (snd (send_to_channels (notifications cfg) net a e)))
   \<and> (\<forall>token chat. telegramBotToken (notifications cfg) = Some token
       \<and> telegramChatId (notifications cfg) = Some chat \<and> token \<noteq> [] \<and> chat \<noteq> []
       \<and> net (TelegramRequest token chat a) \<noteq> UrlRejected
       \<and> (\<not> truthy_string (discordWebhook (notifications cfg))
            \<or> \<not> isl (fst (sendDiscordNotification (notifications cfg) net a e))) \<longrightarrow>
      TelegramRequest token chat a \<in> set (posted (snd (send_to_channels (notifications cfg) net a e))))"
proof (intro conjI allI impI)
  let ?D = "send_to_channels (notifications cfg) net a e"
  assume h: "discordWebhook (notifications cfg) = Some url \<and> url \<noteq> []
      \<and> valid_time (js_mul (parseInt10 (event_timestamp e)) (Fin 1000))
      \<and> (net (DiscordRequest url a) = ConnectionFailed
           \<or> (\<exists>sc. net (DiscordRequest url a) = Responded sc \<and> \<not> status_ok sc))"
  note wf = webhook_failure [of "notifications cfg" url e net a]
  show "isl (fst ?D)" using h wf by simp
  show "snd ?D = [ConsoleNotification a, HttpPost (DiscordRequest url a),
           ConsoleError (projl (fst ?D))]"
    using h wf by simp
  show "posted (snd ?D) = [DiscordRequest url a]" using h wf by simp
next
  let ?D = "send_to_channels (notifications cfg) net a e"
  let ?v = "isUndercut (collection_slug e) e (undercutThresholdPercent cfg) fl"
  assume h: "\<not> truthy_flag (enablePriceTriggerAlerts st) \<and> isUndercut_flag ?v
       \<and> \<not> below_min_floor st (floorPrice ?v) \<and> \<not> above_max_floor st (floorPrice ?v)
       \<and> a = UndercutAlert e (normalized_price e) (to_number (floorPrice ?v)) (percentBelow ?v)
       \<and> isl (fst ?D)"
  then obtain er w where D: "?D = (Inl er, w)" by (cases ?D; cases "fst ?D") auto
  have H: "handleListingEvent st cfg net e fl =
     (Inl er, fl,
      [ConsoleLogListing (item_name e) (normalized_price e) (token_symbol e),
       AddEvent (Ev_listing (item_name e) (normalized_price e) (token_symbol e) (collection_slug e))]
      @ w)"
    using h by (intro rejected_dispatch_undercut [where a = a] D) simp_all
  show "result_of (handleListingEvent st cfg net e fl) = fst ?D"
    by (simp add: H D result_of_def)
  show "floors_of (handleListingEvent st cfg net e fl) = fl"
    by (simp add: H floors_of_def)
  show "posted (effects_of (handleListingEvent st cfg net e fl)) = posted (snd ?D)"
    by (simp add: H D effects_of_def)
next
  fix reason
  let ?D = "send_to_channels (notifications cfg) net a e"
  assume h: "truthy_flag (enablePriceTriggerAlerts st)
       \<and> price_trigger_decision st (normalized_price e) = (True, reason)
       \<and> a = PriceTriggerAlert e (normalized_price e) (token_symbol e) reason
       \<and> isl (fst ?D)"
  then obtain er w where D: "?D = (Inl er, w)" by (cases ?D; cases "fst ?D") auto
  have H: "handleListingEvent st cfg net e fl =
     (Inl er, fl,
      [ConsoleLogListing (item_name e) (normalized_price e) (token_symbol e),
       AddEvent (Ev_listing (item_name e) (normalized_price e) (token_symbol e) (collection_slug e))]
      @ w)"
    using h by (intro rejected_dispatch_price_trigger [where a = a and reason = reason] D) simp_all
  show "result_of (handleListingEvent st cfg net e fl) = fst ?D"
    by (simp add: H D result_of_def)
  show "floors_of (handleListingEvent st cfg net e fl) = fl"
    by (simp add: H floors_of_def)
  show "posted (effects_of (handleListingEvent st cfg net e fl)) = posted (snd ?D)"
    by (simp add: H D effects_of_def)
next
  fix token chat
  assume h: "telegramBotToken (notifications cfg) = Some token
       \<and> telegramChatId (notifications cfg) = Some chat \<and> token \<noteq> [] \<and> chat \<noteq> []
       \<and> net (TelegramRequest token chat a) \<noteq> UrlRejected
       \<and> (\<not> truthy_string (discordWebhook (notifications cfg))
            \<or> \<not> isl (fst (sendDiscordNotification (notifications cfg) net a e)))"
  then show "TelegramRequest token chat a
      \<in> set (posted (snd (send_to_channels (notifications cfg) net a e)))"
    by (intro telegram_attempted) simp_all
qed

lemma chat_config_fields:
  "undercutThresholdPercent (chat_config t) = t"
  "discordWebhook (notifications (chat_config t)) = Some ''https://discord.example/api/webhooks/1/x''"
  "telegramBotToken (notifications (chat_config t)) = Some ''123:abc''"
  "telegramChatId (notifications (chat_config t)) = Some ''42''"
  by (simp_all add: chat_config_def)

lemma example_dispatch_webhook_down:
  "send_to_channels (notifications (chat_config t)) net_webhook_down a (listing c bp d) =
     (Inl (HttpStatusError (Some 500)),
      [ConsoleNotification a, HttpPost (DiscordRequest ''https://discord.example/api/webhooks/1/x'' a),
       ConsoleError (HttpStatusError (Some 500))])"
  by (simp add: send_to_channels_def sendDiscordNotification_def sendConsoleNotification_def
      makeHttpsRequest_def await_then_def chat_config_fields truthy_string_def listing_time
      net_webhook_down_def status_ok_def)

text \<open>The webhook answers 500 to the undercut alert of a listing at 4 under a floor of 5,
  and to the price-trigger alert of a listing at 1 under a minimum of 2: the handler
  rejects and the floor stays. With a network that answers 200, the direct message is
  sent.\<close>

theorem webhook_failure_rejects_dispatch_witness:
  "result_of (handleListingEvent default_settings (chat_config (Fin 0)) net_webhook_down
      (listing ''azuki'' ''4'' 0) [''azuki'' \<mapsto> new_floor (listing ''azuki'' ''5'' 0)])
     = Inl (HttpStatusError (Some 500))
   \<and> floors_of (handleListingEvent default_settings (chat_config (Fin 0)) net_webhook_down
      (listing ''azuki'' ''4'' 0) [''azuki'' \<mapsto> new_floor (listing ''azuki'' ''5'' 0)])
     = [''azuki'' \<mapsto> new_floor (listing ''azuki'' ''5'' 0)]
   \<and> posted (effects_of (handleListingEvent default_settings (chat_config (Fin 0)) net_webhook_down
      (listing ''azuki'' ''4'' 0) [''azuki'' \<mapsto> new_floor (listing ''azuki'' ''5'' 0)]))
     = [DiscordRequest ''https://discord.example/api/webhooks/1/x''
          (UndercutAlert (listing ''azuki'' ''4'' 0) (Fin 4) (Fin 5) (Fin 20))]
   \<and> result_of (handleListingEvent
      (default_settings\<lparr>enablePriceTriggerAlerts := Some True, priceAlertMin := Some (Fin 2)\<rparr>)
      (chat_config (Fin 0)) net_webhook_down
      (listing ''azuki'' ''1'' 0) [''azuki'' \<mapsto> new_floor (listing ''azuki'' ''5'' 0)])
     = Inl (HttpStatusError (Some 500))
   \<and> floors_of (handleListingEvent
      (default_settings\<lparr>enablePriceTriggerAlerts := Some True, priceAlertMin := Some (Fin 2)\<rparr>)
      (chat_config (Fin 0)) net_webhook_down
      (listing ''azuki'' ''1'' 0) [''azuki'' \<mapsto> new_floor (listing ''azuki'' ''5'' 0)])
     = [''azuki'' \<mapsto> new_floor (listing ''azuki'' ''5'' 0)]
   \<and> TelegramRequest ''123:abc'' ''42''
        (UndercutAlert (listing ''azuki'' ''4'' 0) (Fin 4) (Fin 5) (Fin 20))
      \<in> set (posted (snd (send_to_channels (notifications (chat_config (Fin 0))) net_ok
           (UndercutAlert (listing ''azuki'' ''4'' 0) (Fin 4) (Fin 5) (Fin 20))
           (listing ''azuki'' ''4'' 0))))"
proof -
  let ?url = "''https://discord.example/api/webhooks/1/x''"
  let ?fl = "[''azuki'' \<mapsto> new_floor (listing ''azuki'' ''5'' 0)]"
  let ?a = "UndercutAlert (listing ''azuki'' ''4'' 0) (Fin 4) (Fin 5) (Fin 20)"
  let ?b = "PriceTriggerAlert (listing ''azuki'' ''1'' 0) (Fin 1) ''ETH'' (Below (Fin 2))"
  let ?s1 = "default_settings\<lparr>enablePriceTriggerAlerts := Some True, priceAlertMin := Some (Fin 2)\<rparr>"
  have defaults: "minFloorPrice default_settings = None" "maxFloorPrice default_settings = None"
    "enablePriceTriggerAlerts default_settings = None" "priceAlertMax default_settings = None"
    by (simp_all add: default_settings_def)
  have down: "net_webhook_down (DiscordRequest ?url x) = Responded (Some 500)" for x
    by (simp add: net_webhook_down_def)
  have bad: "\<not> status_ok (Some 500)" by (simp add: status_ok_def)
  note A = webhook_failure_rejects_dispatch [where cfg = "chat_config (Fin 0)" and url = ?url
      and e = "listing ''azuki'' ''4'' 0" and net = net_webhook_down and a = ?a
      and st = default_settings and fl = ?fl]
  have a1: "isl (fst (send_to_channels (notifications (chat_config (Fin 0))) net_webhook_down ?a
      (listing ''azuki'' ''4'' 0)))"
    using A [THEN conjunct1] by (simp add: chat_config_fields listing_time down bad)
  have a2: "result_of (handleListingEvent default_settings (chat_config (Fin 0)) net_webhook_down
      (listing ''azuki'' ''4'' 0) ?fl) = Inl (HttpStatusError (Some 500))
    \<and> floors_of (handleListingEvent default_settings (chat_config (Fin 0)) net_webhook_down
      (listing ''azuki'' ''4'' 0) ?fl) = ?fl
    \<and> posted (effects_of (handleListingEvent default_settings (chat_config (Fin 0)) net_webhook_down
      (listing ''azuki'' ''4'' 0) ?fl)) = [DiscordRequest ?url ?a]"
    using A [THEN conjunct2, THEN conjunct1] a1
    by (simp add: chat_config_fields defaults truthy_flag_def listing_fields example_verdict
        listing_price_units below_min_floor_def above_max_floor_def to_number_def
        example_dispatch_webhook_down)
  note B = webhook_failure_rejects_dispatch [where cfg = "chat_config (Fin 0)" and url = ?url
      and e = "listing ''azuki'' ''1'' 0" and net = net_webhook_down and a = ?b
      and st = ?s1 and fl = ?fl]
  have b1: "isl (fst (send_to_channels (notifications (chat_config (Fin 0))) net_webhook_down ?b
      (listing ''azuki'' ''1'' 0)))"
    using B [THEN conjunct1] by (simp add: chat_config_fields listing_time down bad)
  have b2: "result_of (handleListingEvent ?s1 (chat_config (Fin 0)) net_webhook_down
      (listing ''azuki'' ''1'' 0) ?fl) = Inl (HttpStatusError (Some 500))
    \<and> floors_of (handleListingEvent ?s1 (chat_config (Fin 0)) net_webhook_down
      (listing ''azuki'' ''1'' 0) ?fl) = ?fl"
    using B [THEN conjunct2, THEN conjunct2, THEN conjunct1, rule_format, of "Below (Fin 2)"] b1
    by (simp add: truthy_flag_def listing_fields listing_price_units price_trigger_decision_cases
        defaults js_cmp_Fin example_dispatch_webhook_down)
  note C = webhook_failure_rejects_dispatch [where cfg = "chat_config (Fin 0)" and url = ?url
      and e = "listing ''azuki'' ''4'' 0" and net = net_ok and a = ?a
      and st = default_settings and fl = ?fl]
  have c: "TelegramRequest ''123:abc'' ''42'' ?a
      \<in> set (posted (snd (send_to_channels (notifications (chat_config (Fin 0))) net_ok ?a
           (listing ''azuki'' ''4'' 0))))"
    using C [THEN conjunct2, THEN conjunct2, THEN conjunct2, rule_format, of "''123:abc''" "''42''"]
    by (simp add: chat_config_fields net_ok_def sendDiscordNotification_def listing_time
        makeHttpsRequest_def status_ok_def)
  show ?thesis using a2 b2 c by simp
qed

text \<open>
  C2, as the specification has it, fails: the webhook answers 500 to an undercut alert
  while a bot token and a chat identifier are configured. The direct message is not
  sent, the handler rejects with the error of the webhook, and the floor update of the
  event is skipped although the listing at 4 is under the floor of 5.
\<close>

theorem webhook_failure_counterexample:
  "handleListingEvent default_settings (chat_config (Fin 0)) net_webhook_down
      (listing ''azuki'' ''4'' 0) [''azuki'' \<mapsto> new_floor (listing ''azuki'' ''5'' 0)] =
     (Inl (HttpStatusError (Some 500)),
      [''azuki'' \<mapsto> new_floor (listing ''azuki'' ''5'' 0)],
      [ConsoleLogListing ''Item #1'' (Fin 4) ''ETH'',
       AddEvent (Ev_listing ''Item #1'' (Fin 4) ''ETH'' ''azuki''),
       ConsoleNotification (UndercutAlert (listing ''azuki'' ''4'' 0) (Fin 4) (Fin 5) (Fin 20)),
       HttpPost (DiscordRequest ''https://discord.example/api/webhooks/1/x''
         (UndercutAlert (listing ''azuki'' ''4'' 0) (Fin 4) (Fin 5) (Fin 20))),
       ConsoleError (HttpStatusError (Some 500))])
   \<and> truthy_string (telegramBotToken (notifications (chat_config (Fin 0))))
   \<and> truthy_string (telegramChatId (notifications (chat_config (Fin 0))))
   \<and> TelegramRequest ''123:abc'' ''42''
        (UndercutAlert (listing ''azuki'' ''4'' 0) (Fin 4) (Fin 5) (Fin 20))
      \<notin> set (posted (effects_of (handleListingEvent default_settings (chat_config (Fin 0))
            net_webhook_down (listing ''azuki'' ''4'' 0)
            [''azuki'' \<mapsto> new_floor (listing ''azuki'' ''5'' 0)])))"
proof -
  have h: "handleListingEvent default_settings (chat_config (Fin 0)) net_webhook_down
      (listing ''azuki'' ''4'' 0) [''azuki'' \<mapsto> new_floor (listing ''azuki'' ''5'' 0)] =
     (Inl (HttpStatusError (Some 500)),
      [''azuki'' \<mapsto> new_floor (listing ''azuki'' ''5'' 0)],
      [ConsoleLogListing ''Item #1'' (Fin 4) ''ETH'',
       AddEvent (Ev_listing ''Item #1'' (Fin 4) ''ETH'' ''azuki''),
       ConsoleNotification (UndercutAlert (listing ''azuki'' ''4'' 0) (Fin 4) (Fin 5) (Fin 20)),
       HttpPost (DiscordRequest ''https://discord.example/api/webhooks/1/x''
         (UndercutAlert (listing ''azuki'' ''4'' 0) (Fin 4) (Fin 5) (Fin 20))),
       ConsoleError (HttpStatusError (Some 500))])"
    by (simp add: handler_eval)
  show ?thesis
    by (simp add: h effects_of_def chat_config_fields truthy_string_def)
qed

lemma posted_dispatch_kind:
  "list_all (dispatch_effect a) w \<Longrightarrow> \<not> is_floor_update_alert a \<Longrightarrow>
     list_all (\<lambda>r. \<not> is_floor_update_alert (request_alert r)) (posted w)"
  by (induction w rule: posted.induct) auto

lemma price_trigger_step_posted:
  "list_all (\<lambda>r. \<not> is_floor_update_alert (request_alert r))
     (posted (snd (price_trigger_step st cfg net e)))"
proof (cases "truthy_flag (enablePriceTriggerAlerts st)")
  case True
  show ?thesis
    unfolding price_trigger_step_on [OF True]
    by (simp add: snd_await_then posted_append
        posted_dispatch_kind [OF send_to_channels_dispatch])
next
  case False
  then show ?thesis by (simp add: price_trigger_step_off)
qed

lemma undercut_step_posted:
  "list_all (\<lambda>r. \<not> is_floor_update_alert (request_alert r))
     (posted (snd (undercut_step st cfg net e fl)))"
proof (cases "truthy_flag (enablePriceTriggerAlerts st)")
  case True
  then show ?thesis by (simp add: undercut_step_off)
next
  case False
  show ?thesis
    unfolding undercut_step_on [OF False]
    by (simp add: Let_def snd_await_then posted_append
        posted_dispatch_kind [OF send_to_channels_dispatch])
qed

lemma floor_update_step_posted: "posted (snd (snd (floor_update_step st e fl))) = []"
  by (simp add: floor_update_step_effects)

lemma handler_posted:
  "list_all (\<lambda>r. \<not> is_floor_update_alert (request_alert r))
     (posted (effects_of (handleListingEvent st cfg net e fl)))"
proof (cases "truthy_flag (enablePriceTriggerAlerts st)")
  case True
  show ?thesis
    unfolding handle_price_mode [OF True] effects_of_def
    by (simp add: Let_def posted_append price_trigger_step_posted floor_update_step_posted)
next
  case False
  show ?thesis
    unfolding handle_undercut_mode [OF False] effects_of_def
    by (cases "fst (undercut_step st cfg net e fl)")
      (simp_all add: Let_def posted_append undercut_step_posted floor_update_step_posted)
qed

lemma updateFloor_changes: "snd (updateFloor c e fl) \<noteq> fl \<Longrightarrow> fst (updateFloor c e fl)"
  by (simp add: updateFloor_cases split: if_splits)

lemma handler_floor_update_alert:
  assumes "floors_of (handleListingEvent st cfg net e fl) \<noteq> fl"
    and "enableFloorUpdateAlerts st \<noteq> Some False"
  shows "ConsoleNotification (FloorUpdateAlert (collection_slug e) (collection_name e)
            (normalized_price e) (token_symbol e))
         \<in> set (effects_of (handleListingEvent st cfg net e fl))"
proof (cases "truthy_flag (enablePriceTriggerAlerts st)")
  case True
  have "\<not> isl (fst (price_trigger_step st cfg net e))"
    and "snd (updateFloor (collection_slug e) e fl) \<noteq> fl"
    using assms(1) unfolding handle_price_mode [OF True] floors_of_def
    by (auto simp: Let_def split: if_splits)
  then show ?thesis
    using assms(2) updateFloor_changes [of "collection_slug e" e fl]
    unfolding handle_price_mode [OF True] effects_of_def
    by (simp add: Let_def floor_update_step_effects)
next
  case False
  have "fst (undercut_step st cfg net e fl) = Proceed"
    and "snd (updateFloor (collection_slug e) e fl) \<noteq> fl"
    using assms(1) unfolding handle_undercut_mode [OF False] floors_of_def
    by (cases "fst (undercut_step st cfg net e fl)"; simp add: Let_def)+
  then show ?thesis
    using assms(2) updateFloor_changes [of "collection_slug e" e fl]
    unfolding handle_undercut_mode [OF False] effects_of_def
    by (simp add: Let_def floor_update_step_effects)
qed

lemma discord_attempted:
  assumes "discordWebhook cfg = Some url" "url \<noteq> []"
    and "valid_time (js_mul (parseInt10 (event_timestamp e)) (Fin 1000))"
    and "net (DiscordRequest url a) \<noteq> UrlRejected"
  shows "DiscordRequest url a \<in> set (posted (snd (send_to_channels cfg net a e)))"
  using assms(4)
  by (auto simp: send_to_channels_parts Let_def truthy_string_def assms(1,2) posted_append
      sendDiscordNotification_on [OF assms(1,2,3)] makeHttpsRequest_posted)

lemma console_first: "hd (snd (send_to_channels cfg net a e)) = ConsoleNotification a"
  by (simp add: send_to_channels_parts Let_def)

text \<open>
  C8, as the code has it. The dispatch of an undercut alert or a price-trigger alert
  notifies the console first, always; it posts to the webhook whenever a webhook URL is
  configured (and the timestamp of the event is a date); and it posts the direct
  message whenever a bot token and a chat identifier are configured, unless the webhook
  send rejected. A floor-update alert is produced whenever the floor was updated and
  \<open>enableFloorUpdateAlerts\<close> is not false, and it goes to the console only: no request
  of the handler ever carries a floor-update alert.
\<close>

theorem dispatch_channels:
  "hd (snd (send_to_channels (notifications cfg) net a e)) = ConsoleNotification a
   \<and> sendUndercutAlert (notifications cfg) net e lp (Some fp) pb
       = send_to_channels (notifications cfg) net (UndercutAlert e lp fp pb) e
   \<and> sendPriceTriggerAlert (notifications cfg) net e lp s r
       = send_to_channels (notifications cfg) net (PriceTriggerAlert e lp s r) e
   \<and> (\<forall>url. discordWebhook (notifications cfg) = Some url \<and> url \<noteq> []
         \<and> valid_time (js_mul (parseInt10 (event_timestamp e)) (Fin 1000))
         \<and> net (DiscordRequest url a) \<noteq> UrlRejected \<longrightarrow>
       DiscordRequest url a \<in> set (posted (snd (send_to_channels (notifications cfg) net a e))))
   \<and> (\<forall>token chat. telegramBotToken (notifications cfg) = Some token
         \<and> telegramChatId (notifications cfg) = Some chat \<and> token \<noteq> [] \<and> chat \<noteq> []
         \<and> net (TelegramRequest token chat a) \<noteq> UrlRejected
         \<and> (\<not> truthy_string (discordWebhook (notifications cfg))
              \<or> \<not> isl (fst (sendDiscordNotification (notifications cfg) net a e))) \<longrightarrow>
       TelegramRequest token chat a \<in> set (posted (snd (send_to_channels (notifications cfg) net a e))))
   \<and> sendFloorUpdateAlert slug name p s = (Inr (), [ConsoleNotification (FloorUpdateAlert slug name p s)])
   \<and> (floors_of (handleListingEvent st cfg net e fl) \<noteq> fl
         \<and> enableFloorUpdateAlerts st \<noteq> Some False \<longrightarrow>
       ConsoleNotification (FloorUpdateAlert (collection_slug e) (collection_name e)
            (normalized_price e) (token_symbol e))
         \<in> set (effects_of (handleListingEvent st cfg net e fl)))
   \<and> list_all (\<lambda>r. \<not> is_floor_update_alert (request_alert r))
        (posted (effects_of (handleListingEvent st cfg net e fl)))"
proof (intro conjI allI impI)
  show "hd (snd (send_to_channels (notifications cfg) net a e)) = ConsoleNotification a"
    by (rule console_first)
  show "sendUndercutAlert (notifications cfg) net e lp (Some fp) pb
       = send_to_channels (notifications cfg) net (UndercutAlert e lp fp pb) e"
    by (simp add: sendUndercutAlert_def)
  show "sendPriceTriggerAlert (notifications cfg) net e lp s r
       = send_to_channels (notifications cfg) net (PriceTriggerAlert e lp s r) e"
    by (simp add: sendPriceTriggerAlert_def)
  show "sendFloorUpdateAlert slug name p s = (Inr (), [ConsoleNotification (FloorUpdateAlert slug name p s)])"
    by (simp add: sendFloorUpdateAlert_def sendConsoleNotification_def)
  show "list_all (\<lambda>r. \<not> is_floor_update_alert (request_alert r))
        (posted (effects_of (handleListingEvent st cfg net e fl)))"
    by (rule handler_posted)
next
  fix url
  assume "discordWebhook (notifications cfg) = Some url \<and> url \<noteq> []
         \<and> valid_time (js_mul (parseInt10 (event_timestamp e)) (Fin 1000))
         \<and> net (DiscordRequest url a) \<noteq> UrlRejected"
  then show "DiscordRequest url a \<in> set (posted (snd (send_to_channels (notifications cfg) net a e)))"
    by (intro discord_attempted) simp_all
next
  fix token chat
  assume "telegramBotToken (notifications cfg) = Some token
         \<and> telegramChatId (notifications cfg) = Some chat \<and> token \<noteq> [] \<and> chat \<noteq> []
         \<and> net (TelegramRequest token chat a) \<noteq> UrlRejected
         \<and> (\<not> truthy_string (discordWebhook (notifications cfg))
              \<or> \<not> isl (fst (sendDiscordNotification (notifications cfg) net a e)))"
  then show "TelegramRequest token chat a \<in> set (posted (snd (send_to_channels (notifications cfg) net a e)))"
    by (intro telegram_attempted) simp_all
next
  assume "floors_of (handleListingEvent st cfg net e fl) \<noteq> fl
         \<and> enableFloorUpdateAlerts st \<noteq> Some False"
  then show "ConsoleNotification (FloorUpdateAlert (collection_slug e) (collection_name e)
            (normalized_price e) (token_symbol e))
         \<in> set (effects_of (handleListingEvent st cfg net e fl))"
    by (intro handler_floor_update_alert) simp_all
qed

lemma example_first_listing:
  "handleListingEvent default_settings (chat_config (Fin 0)) net_ok (listing ''azuki'' ''4'' 0)
     Map.empty =
   (Inr (), [''azuki'' \<mapsto> new_floor (listing ''azuki'' ''4'' 0)],
    [ConsoleLogListing ''Item #1'' (Fin 4) ''ETH'',
     AddEvent (Ev_listing ''Item #1'' (Fin 4) ''ETH'' ''azuki''),
     ConsoleLogFloor ''Azuki'' (Fin 4) ''ETH'',
     ConsoleNotification (FloorUpdateAlert ''azuki'' (Some ''Azuki'') (Fin 4) ''ETH''),
     AddEvent (Ev_floor_update (Fin 4) ''ETH'' ''azuki''),
     UpdateBotStatus [''azuki'' \<mapsto> new_floor (listing ''azuki'' ''4'' 0)]])"
  by (simp add: handler_eval)

lemma default_settings_fields:
  "minFloorPrice default_settings = None" "maxFloorPrice default_settings = None"
  "enableFloorUpdateAlerts default_settings = None" "priceAlertMin default_settings = None"
  "priceAlertMax default_settings = None" "enablePriceTriggerAlerts default_settings = None"
  by (simp_all add: default_settings_def)

text \<open>With a webhook, a bot token and a chat identifier configured and a network that
  answers 200: an undercut alert is posted to both, and the first listing of a
  collection, which sets the floor, is notified on the console.\<close>

theorem dispatch_channels_witness:
  "DiscordRequest ''https://discord.example/api/webhooks/1/x''
        (UndercutAlert (listing ''azuki'' ''4'' 0) (Fin 4) (Fin 5) (Fin 20))
      \<in> set (posted (snd (send_to_channels (notifications (chat_config (Fin 0))) net_ok
           (UndercutAlert (listing ''azuki'' ''4'' 0) (Fin 4) (Fin 5) (Fin 20))
           (listing ''azuki'' ''4'' 0))))
   \<and> TelegramRequest ''123:abc'' ''42''
        (UndercutAlert (listing ''azuki'' ''4'' 0) (Fin 4) (Fin 5) (Fin 20))
      \<in> set (posted (snd (send_to_channels (notifications (chat_config (Fin 0))) net_ok
           (UndercutAlert (listing ''azuki'' ''4'' 0) (Fin 4) (Fin 5) (Fin 20))
           (listing ''azuki'' ''4'' 0))))
   \<and> ConsoleNotification (FloorUpdateAlert ''azuki'' (Some ''Azuki'') (Fin 4) ''ETH'')
      \<in> set (effects_of (handleListingEvent default_settings (chat_config (Fin 0)) net_ok
           (listing ''azuki'' ''4'' 0) Map.empty))"
proof -
  let ?a = "UndercutAlert (listing ''azuki'' ''4'' 0) (Fin 4) (Fin 5) (Fin 20)"
  note T = dispatch_channels [where cfg = "chat_config (Fin 0)" and net = net_ok and a = ?a
      and e = "listing ''azuki'' ''4'' 0" and st = default_settings and fl = Map.empty]
  have 1: "DiscordRequest ''https://discord.example/api/webhooks/1/x'' ?a
      \<in> set (posted (snd (send_to_channels (notifications (chat_config (Fin 0))) net_ok ?a
           (listing ''azuki'' ''4'' 0))))"
    using T [THEN conjunct2, THEN conjunct2, THEN conjunct2, THEN conjunct1, rule_format,
        of "''https://discord.example/api/webhooks/1/x''"]
    by (simp add: chat_config_fields listing_time net_ok_def)
  have 2: "TelegramRequest ''123:abc'' ''42'' ?a
      \<in> set (posted (snd (send_to_channels (notifications (chat_config (Fin 0))) net_ok ?a
           (listing ''azuki'' ''4'' 0))))"
    using T [THEN conjunct2, THEN conjunct2, THEN conjunct2, THEN conjunct2, THEN conjunct1,
        rule_format, of "''123:abc''" "''42''"]
    by (simp add: chat_config_fields net_ok_def sendDiscordNotification_def listing_time
        makeHttpsRequest_def status_ok_def)
  have 3: "ConsoleNotification (FloorUpdateAlert ''azuki'' (Some ''Azuki'') (Fin 4) ''ETH'')
      \<in> set (effects_of (handleListingEvent default_settings (chat_config (Fin 0)) net_ok
           (listing ''azuki'' ''4'' 0) Map.empty))"
    using T [THEN conjunct2, THEN conjunct2, THEN conjunct2, THEN conjunct2, THEN conjunct2,
        THEN conjunct2, THEN conjunct1]
    by (simp add: example_first_listing floors_of_def default_settings_fields listing_fields
        listing_price_units)
  show ?thesis using 1 2 3 by simp
qed

text \<open>
  C8, as the specification has it, fails for the floor-update alert: a webhook, a bot
  token and a chat identifier are configured, the network answers 200, the first
  listing of the collection sets the floor and the floor-update alert is produced, and
  the handler makes no request at all.
\<close>

theorem floor_update_alert_counterexample:
  "handleListingEvent default_settings (chat_config (Fin 0)) net_ok (listing ''azuki'' ''4'' 0)
     Map.empty =
   (Inr (), [''azuki'' \<mapsto> new_floor (listing ''azuki'' ''4'' 0)],
    [ConsoleLogListing ''Item #1'' (Fin 4) ''ETH'',
     AddEvent (Ev_listing ''Item #1'' (Fin 4) ''ETH'' ''azuki''),
     ConsoleLogFloor ''Azuki'' (Fin 4) ''ETH'',
     ConsoleNotification (FloorUpdateAlert ''azuki'' (Some ''Azuki'') (Fin 4) ''ETH''),
     AddEvent (Ev_floor_update (Fin 4) ''ETH'' ''azuki''),
     UpdateBotStatus [''azuki'' \<mapsto> new_floor (listing ''azuki'' ''4'' 0)]])
   \<and> truthy_string (discordWebhook (notifications (chat_config (Fin 0))))
   \<and> truthy_string (telegramBotToken (notifications (chat_config (Fin 0))))
   \<and> truthy_string (telegramChatId (notifications (chat_config (Fin 0))))
   \<and> posted (effects_of (handleListingEvent default_settings (chat_config (Fin 0)) net_ok
        (listing ''azuki'' ''4'' 0) Map.empty)) = []"
  by (simp add: example_first_listing effects_of_def chat_config_fields truthy_string_def)

subsection \<open>The snapshot of getAllFloors\<close>

lemma entries_same: "r < length h \<Longrightarrow> entries (h @ hs) r = entries h r"
  by (simp add: entries_def nth_append)

lemma record_at_same: "r < length h \<Longrightarrow> record_at (h @ hs) r = record_at h r"
  by (simp add: record_at_def nth_append)

lemma record_at_bound: "record_at h r = Some f \<Longrightarrow> r < length h \<and> h ! r = FloorObject f"
  by (auto simp: record_at_def split: if_splits js_object.splits)

lemma tracker_ok_entry:
  assumes "tracker_ok t h" "entries h t c = Some r"
  shows "r < length h" "r \<noteq> t" "\<exists>f. h ! r = FloorObject f"
proof -
  have "r \<in> ran (entries h t)" using assms(2) by (auto simp: ran_def)
  then obtain f where f: "record_at h r = Some f" using assms(1) by (auto simp: tracker_ok_def)
  show "r < length h" "\<exists>f. h ! r = FloorObject f" using record_at_bound [OF f] by auto
  show "r \<noteq> t" using record_at_bound [OF f] assms(1) by (auto simp: tracker_ok_def)
qed

lemma view_append:
  assumes "tracker_ok t h"
  shows "view t (h @ hs) = view t h"
proof
  fix c
  have t: "t < length h" using assms by (simp add: tracker_ok_def)
  show "view t (h @ hs) c = view t h c"
  proof (cases "entries h t c")
    case None
    then show ?thesis by (simp add: view_def entries_same [OF t])
  next
    case (Some r)
    then show ?thesis
      using tracker_ok_entry(1) [OF assms Some]
      by (simp add: view_def entries_same [OF t] record_at_same)
  qed
qed

lemma view_other_object:
  assumes "tracker_ok t h" "d \<noteq> t" "\<forall>r\<in>ran (entries h t). r \<noteq> d"
  shows "view t (h[d := obj]) = view t h"
proof
  fix c
  have e: "entries (h[d := obj]) t = entries h t"
    using assms(2) by (simp add: entries_def)
  show "view t (h[d := obj]) c = view t h c"
  proof (cases "entries h t c")
    case None
    then show ?thesis by (simp add: view_def e)
  next
    case (Some r)
    then have "r \<noteq> d" using assms(3) by (auto simp: ran_def)
    then show ?thesis using Some by (simp add: view_def e record_at_def)
  qed
qed

text \<open>The tracker over the heap does what the tracker over values does.\<close>

lemma updateFloor_obj_view:
  assumes "tracker_ok t h"
  shows "fst (updateFloor_obj c e t h) = fst (updateFloor c e (view t h))"
    and "view t (snd (updateFloor_obj c e t h)) = snd (updateFloor c e (view t h))"
proof -
  let ?stored = "(h @ [FloorObject (new_floor e)])[t := FloorsObject ((entries h t)(c \<mapsto> length h))]"
  have t: "t < length h" using assms by (simp add: tracker_ok_def)
  have ent: "entries ?stored t = (entries h t)(c \<mapsto> length h)"
    using t by (simp add: entries_def)
  have stored: "view t ?stored = (view t h)(c \<mapsto> new_floor e)"
  proof
    fix k
    show "view t ?stored k = ((view t h)(c \<mapsto> new_floor e)) k"
    proof (cases "k = c")
      case True
      then show ?thesis using t by (simp add: view_def ent record_at_def)
    next
      case False
      show ?thesis
      proof (cases "entries h t k")
        case None
        then show ?thesis using False by (simp add: view_def ent)
      next
        case (Some r)
        from tracker_ok_entry [OF assms Some]
        show ?thesis using False Some by (auto simp: view_def ent record_at_def nth_append)
      qed
    qed
  qed
  show "fst (updateFloor_obj c e t h) = fst (updateFloor c e (view t h))"
    by (simp add: updateFloor_obj_def updateFloor_def Let_def split: floor_value.splits)
  show "view t (snd (updateFloor_obj c e t h)) = snd (updateFloor c e (view t h))"
    using stored
    by (simp add: updateFloor_obj_def updateFloor_def Let_def split: floor_value.splits)
qed

lemma getAllFloors_obj_fresh:
  assumes "tracker_ok t h"
  shows "fst (getAllFloors_obj t h) \<noteq> t"
    and "\<forall>r\<in>ran (entries (snd (getAllFloors_obj t h)) t). r \<noteq> fst (getAllFloors_obj t h)"
    and "tracker_ok t (snd (getAllFloors_obj t h))"
    and "view t (snd (getAllFloors_obj t h)) = view t h"
    and "view (fst (getAllFloors_obj t h)) (snd (getAllFloors_obj t h)) = getAllFloors (view t h)"
proof -
  have t: "t < length h" using assms by (simp add: tracker_ok_def)
  have e: "entries (h @ [FloorsObject (entries h t)]) t = entries h t"
    by (rule entries_same [OF t])
  show "fst (getAllFloors_obj t h) \<noteq> t" using t by (simp add: getAllFloors_obj_def)
  show 2: "\<forall>r\<in>ran (entries (snd (getAllFloors_obj t h)) t). r \<noteq> fst (getAllFloors_obj t h)"
    using tracker_ok_entry(1) [OF assms] by (fastforce simp: getAllFloors_obj_def e ran_def)
  show "tracker_ok t (snd (getAllFloors_obj t h))"
    using assms tracker_ok_entry(1) [OF assms]
    by (auto simp: tracker_ok_def getAllFloors_obj_def e nth_append record_at_same ran_def)
  show "view t (snd (getAllFloors_obj t h)) = view t h"
    by (simp add: getAllFloors_obj_def view_append [OF assms])
  show "view (fst (getAllFloors_obj t h)) (snd (getAllFloors_obj t h)) = getAllFloors (view t h)"
  proof
    fix c
    have se: "entries (h @ [FloorsObject (entries h t)]) (length h) = entries h t"
      by (simp add: entries_def)
    show "view (fst (getAllFloors_obj t h)) (snd (getAllFloors_obj t h)) c = getAllFloors (view t h) c"
    proof (cases "entries h t c")
      case None
      then show ?thesis by (simp add: getAllFloors_obj_def getAllFloors_def view_def se)
    next
      case (Some r)
      then show ?thesis
        using tracker_ok_entry(1) [OF assms Some]
        by (simp add: getAllFloors_obj_def getAllFloors_def view_def se record_at_same)
    qed
  qed
qed

text \<open>A new tracker is well formed, and \<open>updateFloor\<close> keeps it so.\<close>

lemma tracker_ok_new: "tracker_ok (length h) (h @ [FloorsObject Map.empty])"
  by (simp add: tracker_ok_def entries_def)

lemma tracker_ok_updateFloor_obj:
  assumes "tracker_ok t h"
  shows "tracker_ok t (snd (updateFloor_obj c e t h))"
proof -
  let ?stored = "(h @ [FloorObject (new_floor e)])[t := FloorsObject ((entries h t)(c \<mapsto> length h))]"
  have t: "t < length h" using assms by (simp add: tracker_ok_def)
  have ent: "entries ?stored t = (entries h t)(c \<mapsto> length h)"
    using t by (simp add: entries_def)
  have new: "record_at ?stored (length h) = Some (new_floor e)"
    using t by (simp add: record_at_def)
  have old: "record_at ?stored r \<noteq> None" if "entries h t k = Some r" for k r
    using tracker_ok_entry [OF assms that] by (auto simp: record_at_def nth_append)
  have "tracker_ok t ?stored"
    unfolding tracker_ok_def ent
    using t new old by (auto simp: ran_def split: if_splits)
  then show ?thesis
    using assms by (simp add: updateFloor_obj_def Let_def split: floor_value.splits)
qed

lemma assign_price_shared:
  assumes "tracker_ok t h" "view t h c = Some f"
  shows "view t (assign_price (fst (getAllFloors_obj t h)) c x (snd (getAllFloors_obj t h))) c
           = Some (f\<lparr>price := x\<rparr>)"
proof -
  let ?h1 = "h @ [FloorsObject (entries h t)]"
  obtain r where r: "entries h t c = Some r" and f: "record_at h r = Some f"
    using assms(2) by (auto simp: view_def split: option.splits)
  have t: "t < length h" using assms(1) by (simp add: tracker_ok_def)
  have rb: "r < length h" "r \<noteq> t" using tracker_ok_entry [OF assms(1) r] by auto
  have se: "entries ?h1 (length h) = entries h t" by (simp add: entries_def)
  have ap: "assign_price (length h) c x ?h1 = ?h1[r := FloorObject (f\<lparr>price := x\<rparr>)]"
    using r f rb by (simp add: assign_price_def se record_at_same)
  have et: "entries (?h1[r := FloorObject (f\<lparr>price := x\<rparr>)]) t = entries h t"
    using t rb by (simp add: entries_def nth_append)
  have rr: "record_at (?h1[r := FloorObject (f\<lparr>price := x\<rparr>)]) r = Some (f\<lparr>price := x\<rparr>)"
    using rb by (simp add: record_at_def)
  show ?thesis
    by (simp add: getAllFloors_obj_def ap view_def et r rr)
qed

text \<open>
  C9, as the code has it. \<open>getAllFloors\<close> returns a new dictionary with the entries of
  the tracker's: it shows the same floors, and whatever the caller does to the returned
  dictionary itself (assigning an entry, deleting an entry, any change of that object)
  leaves the floors that \<open>getFloor\<close> and \<open>isUndercut\<close> see as they were. The floor records
  are shared with the tracker: a price assigned through the returned dictionary is the
  price that the tracker sees afterwards.
\<close>

theorem getAllFloors_shallow_snapshot:
  assumes "tracker_ok t h"
  shows "fst (getAllFloors_obj t h) \<noteq> t
    \<and> view (fst (getAllFloors_obj t h)) (snd (getAllFloors_obj t h)) = getAllFloors (view t h)
    \<and> view t (snd (getAllFloors_obj t h)) = view t h
    \<and> (\<forall>obj. view t ((snd (getAllFloors_obj t h))[fst (getAllFloors_obj t h) := obj]) = view t h)
    \<and> (\<forall>k r c e th.
          getFloor c (view t (assign_entry (fst (getAllFloors_obj t h)) k r (snd (getAllFloors_obj t h))))
            = getFloor c (view t h)
          \<and> isUndercut c e th (view t (assign_entry (fst (getAllFloors_obj t h)) k r (snd (getAllFloors_obj t h))))
            = isUndercut c e th (view t h))
    \<and> (\<forall>k c e th.
          getFloor c (view t (delete_entry (fst (getAllFloors_obj t h)) k (snd (getAllFloors_obj t h))))
            = getFloor c (view t h)
          \<and> isUndercut c e th (view t (delete_entry (fst (getAllFloors_obj t h)) k (snd (getAllFloors_obj t h))))
            = isUndercut c e th (view t h))
    \<and> (\<forall>c x f. view t h c = Some f \<longrightarrow>
          getFloor c (view t (assign_price (fst (getAllFloors_obj t h)) c x (snd (getAllFloors_obj t h))))
            = FloorRecord (f\<lparr>price := x\<rparr>))"
proof -
  note fresh = getAllFloors_obj_fresh [OF assms]
  have other: "view t ((snd (getAllFloors_obj t h))[fst (getAllFloors_obj t h) := obj]) = view t h"
    for obj
    using view_other_object [OF fresh(3) fresh(1) fresh(2)] fresh(4) by simp
  show ?thesis
    using fresh(1,4,5) other assign_price_shared [OF assms]
    by (simp add: assign_entry_def delete_entry_def getFloor_def lookup_def)
qed

lemma example_heap_ok: "tracker_ok 0 example_heap"
  by (simp add: tracker_ok_def example_heap_def entries_def record_at_def ran_def)

lemma example_heap_view:
  "view 0 example_heap = [''azuki'' \<mapsto> new_floor (listing ''azuki'' ''5'' 0)]"
  by (rule ext) (simp add: view_def example_heap_def entries_def record_at_def)

lemma example_heap_price_assigned:
  "view 0 (assign_price (fst (getAllFloors_obj 0 example_heap)) ''azuki'' (Fin 1)
            (snd (getAllFloors_obj 0 example_heap)))
     = [''azuki'' \<mapsto> (new_floor (listing ''azuki'' ''5'' 0))\<lparr>price := Fin 1\<rparr>]"
  by (rule ext)
    (simp add: view_def example_heap_def entries_def record_at_def getAllFloors_obj_def
      assign_price_def nth_append)

text \<open>The tracker with a floor of 5: the snapshot shows the floor; an entry assigned in
  the snapshot, or deleted from it, is not seen by the tracker; a price of 1 assigned
  through the snapshot is.\<close>

theorem getAllFloors_shallow_snapshot_witness:
  "view (fst (getAllFloors_obj 0 example_heap)) (snd (getAllFloors_obj 0 example_heap))
     = [''azuki'' \<mapsto> new_floor (listing ''azuki'' ''5'' 0)]
   \<and> getFloor ''azuki'' (view 0 (assign_entry (fst (getAllFloors_obj 0 example_heap)) ''azuki'' 0
        (snd (getAllFloors_obj 0 example_heap))))
     = FloorRecord (new_floor (listing ''azuki'' ''5'' 0))
   \<and> getFloor ''azuki'' (view 0 (delete_entry (fst (getAllFloors_obj 0 example_heap)) ''azuki''
        (snd (getAllFloors_obj 0 example_heap))))
     = FloorRecord (new_floor (listing ''azuki'' ''5'' 0))
   \<and> getFloor ''azuki'' (view 0 (assign_price (fst (getAllFloors_obj 0 example_heap)) ''azuki'' (Fin 1)
        (snd (getAllFloors_obj 0 example_heap))))
     = FloorRecord ((new_floor (listing ''azuki'' ''5'' 0))\<lparr>price := Fin 1\<rparr>)"
proof -
  note T = getAllFloors_shallow_snapshot [OF example_heap_ok]
  have 1: "view (fst (getAllFloors_obj 0 example_heap)) (snd (getAllFloors_obj 0 example_heap))
     = [''azuki'' \<mapsto> new_floor (listing ''azuki'' ''5'' 0)]"
    using T [THEN conjunct2, THEN conjunct1] by (simp add: example_heap_view getAllFloors_def)
  have 2: "getFloor ''azuki'' (view 0 (assign_entry (fst (getAllFloors_obj 0 example_heap)) ''azuki'' 0
        (snd (getAllFloors_obj 0 example_heap))))
     = FloorRecord (new_floor (listing ''azuki'' ''5'' 0))"
    using T [THEN conjunct2, THEN conjunct2, THEN conjunct2, THEN conjunct2, THEN conjunct1,
        rule_format, of "''azuki''" "''azuki''" 0, THEN conjunct1]
    by (simp add: example_heap_view getFloor_def lookup_def)
  have 3: "getFloor ''azuki'' (view 0 (delete_entry (fst (getAllFloors_obj 0 example_heap)) ''azuki''
        (snd (getAllFloors_obj 0 example_heap))))
     = FloorRecord (new_floor (listing ''azuki'' ''5'' 0))"
    using T [THEN conjunct2, THEN conjunct2, THEN conjunct2, THEN conjunct2, THEN conjunct2,
        THEN conjunct1, rule_format, of "''azuki''" "''azuki''", THEN conjunct1]
    by (simp add: example_heap_view getFloor_def lookup_def)
  have 4: "getFloor ''azuki'' (view 0 (assign_price (fst (getAllFloors_obj 0 example_heap)) ''azuki'' (Fin 1)
        (snd (getAllFloors_obj 0 example_heap))))
     = FloorRecord ((new_floor (listing ''azuki'' ''5'' 0))\<lparr>price := Fin 1\<rparr>)"
    using T [THEN conjunct2, THEN conjunct2, THEN conjunct2, THEN conjunct2, THEN conjunct2,
        THEN conjunct2, rule_format, of "''azuki''" "new_floor (listing ''azuki'' ''5'' 0)" "Fin 1"]
    by (simp add: example_heap_view)
  show ?thesis using 1 2 3 4 by simp
qed

text \<open>
  C9, as the specification has it, fails for a field of a returned record: the caller
  takes the snapshot of a tracker whose floor is 5 and assigns 1 to the price of the
  record in it. The tracker then reports a floor of 1, and a listing at 4, an undercut
  before, is none after.
\<close>

theorem getAllFloors_field_counterexample:
  "getFloor ''azuki'' (view 0 example_heap) = FloorRecord (new_floor (listing ''azuki'' ''5'' 0))
   \<and> price (new_floor (listing ''azuki'' ''5'' 0)) = Fin 5
   \<and> getFloor ''azuki''
        (view 0 (assign_price (fst (getAllFloors_obj 0 example_heap)) ''azuki'' (Fin 1)
                  (snd (getAllFloors_obj 0 example_heap))))
       = FloorRecord ((new_floor (listing ''azuki'' ''5'' 0))\<lparr>price := Fin 1\<rparr>)
   \<and> price ((new_floor (listing ''azuki'' ''5'' 0))\<lparr>price := Fin 1\<rparr>) = Fin 1
   \<and> isUndercut_flag (isUndercut ''azuki'' (listing ''azuki'' ''4'' 0) (Fin 0) (view 0 example_heap))
   \<and> \<not> isUndercut_flag (isUndercut ''azuki'' (listing ''azuki'' ''4'' 0) (Fin 0)
        (view 0 (assign_price (fst (getAllFloors_obj 0 example_heap)) ''azuki'' (Fin 1)
                  (snd (getAllFloors_obj 0 example_heap)))))"
  by (simp add: example_heap_view example_heap_price_assigned getFloor_def lookup_def
      isUndercut_def price_new_floor listing_price_units js_cmp_Fin percent_examples)

end
